theory Spec2Isabelle
  imports Main "HOL-Library.Word"
begin

section \<open>Micheline primitives\<close>

text \<open>
  Modelled from the spec: the OpCode registry (section 4.1) is not among
  the source files read here. The type, data and keyword opcodes are the ones the
  specification lists; the instruction opcodes, which it only names as a
  family, are \<open>I_OP n\<close>.
\<close>

datatype OpCode =
    K_PARAMETER | K_STORAGE | K_CODE | K_VIEW
  | D_UNIT | D_TRUE | D_FALSE | D_PAIR | D_LEFT | D_RIGHT | D_SOME | D_NONE | D_ELT
  | I_OP nat
  | T_INT | T_NAT | T_STRING | T_BYTES | T_BOOL | T_UNIT | T_OPTION | T_LIST
  | T_SET | T_MAP | T_BIG_MAP | T_PAIR | T_OR | T_LAMBDA | T_ADDRESS | T_KEY
  | T_KEY_HASH | T_SIGNATURE | T_CONTRACT | T_TIMESTAMP | T_MUTEZ | T_CHAIN_ID
  | T_OPERATION | T_TICKET | T_SAPLING_STATE | T_SAPLING_TRANSACTION
  | T_BLS12_381_G1 | T_BLS12_381_G2 | T_BLS12_381_FR | T_NEVER

text \<open>
  Modelled from the spec: the shape tag of a node (sections 3 and 4.2), in the
  order of the wire tags \<open>0x00 .. 0x0A\<close>.
\<close>

datatype PrimType =
    PrimInt | PrimString | PrimSequence
  | PrimNullary | PrimNullaryAnno | PrimUnary | PrimUnaryAnno
  | PrimBinary | PrimBinaryAnno | PrimVariadicAnno | PrimBytes

type_synonym byte = "8 word"

text \<open>
  Modelled from the spec: the node itself (section 3): shape tag, opcode,
  children, annotations, one payload slot per scalar shape and the
  \<open>WasPacked\<close> flag.
\<close>

datatype Prim = Prim
  (ptype: PrimType)
  (opcode: OpCode)
  (args: "Prim list")
  (anno: "string list")
  (int_value: int)
  (string_value: string)
  (bytes_value: "byte list")
  (was_packed: bool)

section \<open>Type and value compatibility\<close>

text \<open>\<open>Prim.matchOpCode\<close> of value.go.\<close>

definition matchOpCode :: "Prim \<Rightarrow> OpCode \<Rightarrow> bool" where
  "matchOpCode p oc =
    (let mismatch =
      (case ptype p of
         PrimSequence \<Rightarrow>
           (if oc \<in> {T_LIST, T_MAP, T_BIG_MAP, T_SET, T_LAMBDA, T_OR, T_OPTION, T_PAIR,
                      T_SAPLING_STATE, T_TICKET} then False else True)
       | PrimInt \<Rightarrow>
           (if oc \<in> {T_INT, T_NAT, T_MUTEZ, T_TIMESTAMP, T_BIG_MAP, T_OR, T_OPTION,
                      T_SAPLING_STATE, T_BLS12_381_G1, T_BLS12_381_G2, T_BLS12_381_FR,
                      T_TICKET} then False else True)
       | PrimString \<Rightarrow>
           (if oc \<in> {T_BYTES, T_STRING, T_ADDRESS, T_CONTRACT, T_KEY_HASH, T_KEY,
                      T_SIGNATURE, T_TIMESTAMP, T_OR, T_CHAIN_ID, T_OPTION,
                      T_TICKET} then False else True)
       | PrimBytes \<Rightarrow>
           (if oc \<in> {T_BYTES, T_STRING, T_BOOL, T_ADDRESS, T_KEY_HASH, T_KEY,
                      T_CONTRACT, T_SIGNATURE, T_OPERATION, T_LAMBDA, T_OR,
                      T_CHAIN_ID, T_OPTION, T_SAPLING_STATE, T_SAPLING_TRANSACTION,
                      T_BLS12_381_G1, T_BLS12_381_G2, T_BLS12_381_FR,
                      T_TICKET} then False else True)
       | _ \<Rightarrow>
           (if opcode p = D_PAIR then
              (if oc \<in> {T_PAIR, T_OR, T_LIST, T_OPTION, T_TICKET} then False else True)
            else if opcode p = D_SOME \<or> opcode p = D_NONE then
              (if oc \<in> {T_OPTION} then False else True)
            else if opcode p = D_UNIT then
              (if oc \<in> {T_UNIT, K_PARAMETER} then False else True)
            else if opcode p = D_LEFT \<or> opcode p = D_RIGHT then
              (if oc \<in> {T_OR} then False else True)
            else False))
     in \<not> mismatch)"

text \<open>
  The compatibility table of section 4.6.1, written from the specification's
  words: one row per value shape, and any combination that no row lists is a
  mismatch.
\<close>

datatype ValueShape = SeqShape | IntShape | StringShape | BytesShape | AppShape OpCode

definition shape_of :: "Prim \<Rightarrow> ValueShape" where
  "shape_of p =
    (if ptype p = PrimSequence then SeqShape
     else if ptype p = PrimInt then IntShape
     else if ptype p = PrimString then StringShape
     else if ptype p = PrimBytes then BytesShape
     else AppShape (opcode p))"

definition compat_table :: "(ValueShape \<times> OpCode list) list" where
  "compat_table =
    [(SeqShape, [T_LIST, T_MAP, T_BIG_MAP, T_SET, T_LAMBDA, T_OR, T_OPTION, T_PAIR,
                 T_SAPLING_STATE, T_TICKET]),
     (IntShape, [T_INT, T_NAT, T_MUTEZ, T_TIMESTAMP, T_BIG_MAP, T_OR, T_OPTION,
                 T_SAPLING_STATE, T_BLS12_381_G1, T_BLS12_381_G2, T_BLS12_381_FR, T_TICKET]),
     (StringShape, [T_BYTES, T_STRING, T_ADDRESS, T_CONTRACT, T_KEY_HASH, T_KEY,
                    T_SIGNATURE, T_TIMESTAMP, T_OR, T_CHAIN_ID, T_OPTION, T_TICKET]),
     (BytesShape, [T_BYTES, T_STRING, T_BOOL, T_ADDRESS, T_KEY_HASH, T_KEY, T_CONTRACT,
                   T_SIGNATURE, T_OPERATION, T_LAMBDA, T_OR, T_CHAIN_ID, T_OPTION,
                   T_SAPLING_STATE, T_SAPLING_TRANSACTION,
                   T_BLS12_381_G1, T_BLS12_381_G2, T_BLS12_381_FR, T_TICKET]),
     (AppShape D_PAIR, [T_PAIR, T_OR, T_LIST, T_OPTION, T_TICKET]),
     (AppShape D_SOME, [T_OPTION]),
     (AppShape D_NONE, [T_OPTION]),
     (AppShape D_UNIT, [T_UNIT, K_PARAMETER]),
     (AppShape D_LEFT, [T_OR]),
     (AppShape D_RIGHT, [T_OR])]"

definition table_match :: "Prim \<Rightarrow> OpCode \<Rightarrow> bool" where
  "table_match p oc =
    (case map_of compat_table (shape_of p) of
       None \<Rightarrow> False
     | Some ocs \<Rightarrow> oc \<in> set ocs)"

definition checked_value_opcodes :: "OpCode set" where
  "checked_value_opcodes = {D_PAIR, D_SOME, D_NONE, D_UNIT, D_LEFT, D_RIGHT}"

definition is_application :: "Prim \<Rightarrow> bool" where
  "is_application p = (ptype p \<notin> {PrimSequence, PrimInt, PrimString, PrimBytes})"

definition prim_op :: "PrimType \<Rightarrow> OpCode \<Rightarrow> Prim list \<Rightarrow> Prim" where
  "prim_op t oc as = Prim t oc as [] 0 [] [] False"

text \<open>The zero value \<open>Prim{}\<close> of Go: shape tag 0, opcode 0, no children.\<close>

definition zero_Prim :: Prim where
  "zero_Prim = Prim PrimInt K_PARAMETER [] [] 0 [] [] False"

section \<open>Errors\<close>

text \<open>
  Every error return of the modelled functions, and \<open>Panic\<close> for a Go run-time
  panic (an index or a slice bound out of range, an explicit \<open>panic\<close>).
\<close>

datatype error =
    ErrShortBuffer
  | ErrMissingEntrypoint string
  | ErrMissingEntrypointPrefix string string
  | ErrMaxNesting
  | ErrTypeMismatch OpCode PrimType OpCode
  | ErrUnexpectedEltItem PrimType OpCode OpCode
  | ErrUnexpectedEltSequence PrimType OpCode OpCode
  | ErrUnexpectedOption OpCode
  | ErrUnexpectedOrBranch OpCode
  | ErrCodec nat
  | Panic

section \<open>The Parameters envelope\<close>

record Parameters =
  Entrypoint :: string
  Value :: Prim

definition byte_of_char :: "char \<Rightarrow> byte" where
  "byte_of_char c = word_of_nat (of_char c)"

definition char_of_byte :: "byte \<Rightarrow> char" where
  "char_of_byte b = char_of (unat b)"

text \<open>\<open>binary.BigEndian.PutUint32\<close> after the conversion \<open>uint32(n)\<close>.\<close>

definition put_uint32 :: "nat \<Rightarrow> byte list" where
  "put_uint32 n =
    [word_of_nat (n mod 2 ^ 32 div 2 ^ 24), word_of_nat (n mod 2 ^ 32 div 2 ^ 16),
     word_of_nat (n mod 2 ^ 32 div 2 ^ 8), word_of_nat (n mod 2 ^ 32)]"

text \<open>\<open>binary.BigEndian.Uint32\<close>, which panics on fewer than four bytes.\<close>

definition get_uint32 :: "byte list \<Rightarrow> error + nat" where
  "get_uint32 bs =
    (case bs of
       b0 # b1 # b2 # b3 # _ \<Rightarrow>
         Inr (unat b0 * 2 ^ 24 + unat b1 * 2 ^ 16 + unat b2 * 2 ^ 8 + unat b3)
     | _ \<Rightarrow> Inl Panic)"

text \<open>
  \<open>Parameters.MarshalBinary\<close> of parameters.go. \<open>EncodeBuffer\<close>, the binary
  encoder of a \<open>Prim\<close>, is not among the source files read here and is the
  parameter \<open>enc\<close>: the bytes it appends to the buffer, or its error.
\<close>

definition MarshalBinary :: "(Prim \<Rightarrow> error + byte list) \<Rightarrow> Parameters \<Rightarrow> error + byte list" where
  "MarshalBinary enc p =
    (if length (Entrypoint p) = 0 \<and> opcode (Value p) = D_UNIT then Inr [0]
     else
       let (buf, n) =
         (if Entrypoint p = '''' \<or> Entrypoint p = ''default'' then ([1, 0], 2)
          else if Entrypoint p = ''root'' then ([1, 1], 2)
          else if Entrypoint p = ''do'' then ([1, 2], 2)
          else if Entrypoint p = ''set_delegate'' then ([1, 3], 2)
          else if Entrypoint p = ''remove_delegate'' then ([1, 4], 2)
          else ([1, 255] @ [word_of_nat (length (Entrypoint p))] @ map byte_of_char (Entrypoint p),
                2 + (1 + length (Entrypoint p))))
       in (case enc (Value p) of
            Inl err \<Rightarrow> Inl err
          | Inr body \<Rightarrow>
              let res = buf @ put_uint32 0 @ body
              in Inr (take n res @ put_uint32 (length res - n - 4) @ drop (n + 4) res)))"

text \<open>
  \<open>Parameters.UnmarshalBinary\<close> of parameters.go, on a receiver \<open>p\<close>; the
  result is the error (if any) and the receiver as the call leaves it.
  \<open>DecodeBuffer\<close> is the parameter \<open>dec\<close>, reading one \<open>Prim\<close> from the front
  of the buffer.
\<close>

definition UnmarshalBinary ::
  "(byte list \<Rightarrow> error + Prim) \<Rightarrow> Parameters \<Rightarrow> byte list \<Rightarrow> error option \<times> Parameters" where
  "UnmarshalBinary dec p data =
    (if length data = 1 \<and> data ! 0 = 0 then
       (None, p\<lparr>Value := prim_op PrimNullary D_UNIT [], Entrypoint := ''default''\<rparr>)
     else if data = [] then (Some Panic, p)
     else
       let buf = drop 1 data; tag = take 1 buf; buf = drop 1 buf
       in if length tag = 0 then (Some ErrShortBuffer, p)
          else
            let named =
              (if tag ! 0 = 0 then Inr (''default'', buf)
               else if tag ! 0 = 1 then Inr (''root'', buf)
               else if tag ! 0 = 2 then Inr (''do'', buf)
               else if tag ! 0 = 3 then Inr (''set_delegate'', buf)
               else if tag ! 0 = 4 then Inr (''remove_delegate'', buf)
               else
                 let sz = take 1 buf; buf = drop 1 buf
                 in if length sz = 0 \<or> length buf < unat (sz ! 0) then Inl ErrShortBuffer
                    else Inr (map char_of_byte (take (unat (sz ! 0)) buf), drop (unat (sz ! 0)) buf))
            in case named of
                 Inl err \<Rightarrow> (Some err, p)
               | Inr (name, buf) \<Rightarrow>
                   let p = p\<lparr>Entrypoint := name\<rparr>
                   in (case get_uint32 (take 4 buf) of
                        Inl err \<Rightarrow> (Some err, p)
                      | Inr dsize \<Rightarrow>
                          let buf = drop 4 buf
                          in if length buf < dsize then (Some ErrShortBuffer, p)
                             else (case dec buf of
                                    Inl err \<Rightarrow> (Some err, p)
                                  | Inr prim \<Rightarrow> (None, p\<lparr>Value := prim\<rparr>))))"

text \<open>
  What \<open>json.Marshal\<close> is handed: the encoders of the \<open>Prim\<close> tree and of Go
  values are not among the source files read here, so the JSON functions are modelled
  up to the value they marshal and \<open>json.Marshal\<close> is a parameter.
\<close>

text \<open>\<open>Parameters.MarshalJSON\<close> of parameters.go.\<close>

datatype ParametersJSON = JsonValueOnly Prim | JsonAlias string Prim

definition Parameters_MarshalJSON :: "(ParametersJSON \<Rightarrow> 'r) \<Rightarrow> Parameters \<Rightarrow> 'r" where
  "Parameters_MarshalJSON json_Marshal p =
    (if Entrypoint p = '''' \<or> (Entrypoint p = ''default'' \<and> opcode (Value p) = D_UNIT)
     then json_Marshal (JsonValueOnly (Value p))
     else json_Marshal (JsonAlias (Entrypoint p) (Value p)))"

section \<open>The binary encoder of a node\<close>

text \<open>
  Modelled from the spec: \<open>Prim.EncodeBuffer\<close> is not part of the sources at
  hand. This is the wire form of section 4.2: a shape tag, then the bytes of
  the shape. The wire tag of an opcode, which the specification does not
  list, is the parameter \<open>op_tag\<close>.
\<close>

function zarith_rest :: "nat \<Rightarrow> byte list" where
  "zarith_rest a =
    (if a = 0 then []
     else word_of_nat (a mod 128 + (if 128 \<le> a then 128 else 0)) # zarith_rest (a div 128))"
  by pat_completeness auto
termination
  by (relation "measure id") auto

declare zarith_rest.simps [simp del]

definition zarith :: "int \<Rightarrow> byte list" where
  "zarith i =
    (let a = nat \<bar>i\<bar>
     in word_of_nat (a mod 64 + (if i < 0 then 64 else 0) + (if 64 \<le> a then 128 else 0))
        # zarith_rest (a div 64))"

fun join_annots :: "string list \<Rightarrow> string" where
  "join_annots [] = []"
| "join_annots [a] = a"
| "join_annots (a # b # bs) = a @ '' '' @ join_annots (b # bs)"

definition annot_block :: "string list \<Rightarrow> byte list" where
  "annot_block as =
    put_uint32 (length (join_annots as)) @ map byte_of_char (join_annots as)"

fun EncodeBuffer :: "(OpCode \<Rightarrow> byte) \<Rightarrow> Prim \<Rightarrow> byte list" where
  "EncodeBuffer op_tag (Prim t oc as an i s b w) =
    (let children = concat (map (EncodeBuffer op_tag) as)
     in case t of
          PrimInt \<Rightarrow> 0 # zarith i
        | PrimString \<Rightarrow> 1 # put_uint32 (length s) @ map byte_of_char s
        | PrimSequence \<Rightarrow> 2 # put_uint32 (length children) @ children
        | PrimNullary \<Rightarrow> [3, op_tag oc]
        | PrimNullaryAnno \<Rightarrow> [4, op_tag oc] @ annot_block an
        | PrimUnary \<Rightarrow> [5, op_tag oc] @ children
        | PrimUnaryAnno \<Rightarrow> [6, op_tag oc] @ children @ annot_block an
        | PrimBinary \<Rightarrow> [7, op_tag oc] @ children
        | PrimBinaryAnno \<Rightarrow> [8, op_tag oc] @ children @ annot_block an
        | PrimVariadicAnno \<Rightarrow>
            [9, op_tag oc] @ put_uint32 (length children) @ children @ annot_block an
        | PrimBytes \<Rightarrow> 10 # put_uint32 (length b) @ b)"

definition prim_int :: "int \<Rightarrow> Prim" where
  "prim_int i = Prim PrimInt K_PARAMETER [] [] i [] [] False"

text \<open>The entrypoint names that \<open>MarshalBinary\<close> writes as a one-byte tag.\<close>

definition special_entrypoints :: "string set" where
  "special_entrypoints =
    {[], ''default'', ''root'', ''do'', ''set_delegate'', ''remove_delegate''}"

section \<open>Entrypoint routing\<close>

text \<open>\<open>type Type struct { Prim }\<close>: a type is the node at its root.\<close>

type_synonym Type = Prim

text \<open>
  Modelled from the spec: the \<open>Entrypoint\<close> record (section 3: name, branch
  and sub-type prim) with the id that \<open>FindId\<close> looks up, and the table
  \<open>Entrypoints\<close>, a Go map from names to entrypoints, as an association list.
  \<open>FindBranch\<close> and \<open>FindId\<close> are the lookups by branch and by id
  (section 4.5).
\<close>

record Entrypoint =
  EntrypointId :: nat
  Name :: string
  Branch :: string
  EntrypointPrim :: Prim








fun Split :: "string \<Rightarrow> char \<Rightarrow> string list" where
  "Split [] sep = [[]]"
| "Split (c # cs) sep =
    (if c = sep then [] # Split cs sep
     else (case Split cs sep of
             [] \<Rightarrow> [[c]]
           | w # ws \<Rightarrow> (c # w) # ws))"










section \<open>The labelled map of a value\<close>

text \<open>
  The Go values stored in the labelled map (\<open>interface{}\<close>): \<open>nil\<close>, big
  integers, strings, booleans, times, the opaque address, key and signature
  values of package tezos, raw \<open>Prim\<close> nodes, arrays and nested maps. A Go map
  \<open>map[string]interface{}\<close> is an association list with distinct keys, in
  the order of first assignment; \<open>time.Time\<close> is seconds since the epoch.
\<close>

datatype iface =
    GoNil
  | BigInt int
  | Str string
  | Bool bool
  | Time int
  | Address string
  | Key string
  | Signature string
  | PrimV Prim
  | Arr "iface list"
  | MapV "(string \<times> iface) list"

type_synonym gomap = "(string \<times> iface) list"

text \<open>\<open>m[label] = v\<close>.\<close>

fun assign :: "gomap \<Rightarrow> string \<Rightarrow> iface \<Rightarrow> gomap" where
  "assign [] k v = [(k, v)]"
| "assign ((k', v') # m) k v = (if k' = k then (k, v) # m else (k', v') # assign m k v)"

definition EMPTY_LABEL :: string where
  "EMPTY_LABEL = ''@%%@''"

definition RENDER_TYPE_PRIM :: int where "RENDER_TYPE_PRIM = 0"

text \<open>\<open>strconv.Itoa\<close> on a length.\<close>

definition digit_char :: "nat \<Rightarrow> char" where
  "digit_char d = ''0123456789'' ! d"

function Itoa :: "nat \<Rightarrow> string" where
  "Itoa n = (if n < 10 then [digit_char n] else Itoa (n div 10) @ [digit_char (n mod 10)])"
  by pat_completeness auto
termination
  by (relation "measure id") auto

declare Itoa.simps [simp del]

text \<open>
  Modelled from the spec: the value stack of the walker (sections 4.6 and 9),
  not among the source files read here. The top is the head of the list; \<open>Push\<close>
  of several nodes leaves the first of them on top, so that the children of
  a pair are popped in order; \<open>Pop\<close> on the empty stack yields the zero node.
\<close>

type_synonym Stack = "Prim list"

definition NewStack :: "Prim list \<Rightarrow> Stack" where
  "NewStack ps = ps"

definition Push :: "Prim list \<Rightarrow> Stack \<Rightarrow> Stack" where
  "Push ps stack = ps @ stack"

definition Pop :: "Stack \<Rightarrow> Prim \<times> Stack" where
  "Pop stack = (case stack of [] \<Rightarrow> (zero_Prim, []) | p # ps \<Rightarrow> (p, ps))"

text \<open>
  The methods of \<open>Prim\<close> and \<open>Type\<close> that \<open>walkTree\<close> calls and that are not
  among the source files read here; \<open>walkTree\<close> takes them as the parameter \<open>H\<close>.
  \<open>NewKey\<close> stands for \<open>NewKey\<close> followed by \<open>String\<close> on the key.
\<close>

record helpers =
  IsPair :: "Prim \<Rightarrow> bool"
  TypeIsPair :: "Type \<Rightarrow> bool"
  UnfoldPair :: "Prim \<Rightarrow> Type \<Rightarrow> Prim list"
  CanUnfold :: "Prim \<Rightarrow> Type \<Rightarrow> bool"
  IsScalar :: "Prim \<Rightarrow> bool"
  IsSequence :: "Prim \<Rightarrow> bool"
  BuildType :: "Prim \<Rightarrow> Type"
  Label :: "Type \<Rightarrow> string"
  GetVarAnnoAny :: "Prim \<Rightarrow> string"
  PrimValue :: "Prim \<Rightarrow> OpCode \<Rightarrow> iface"
  NewKey :: "Type \<Rightarrow> Prim \<Rightarrow> error + string"
  TicketType :: "Prim \<Rightarrow> Type"

text \<open>\<open>typ = val.BuildType(); typ.WasPacked = true; typ.Anno = labels\<close>.\<close>

definition retype :: "helpers \<Rightarrow> Prim \<Rightarrow> Type \<Rightarrow> Type" where
  "retype H val typ =
    (let labels = anno typ; t = BuildType H val
     in Prim (ptype t) (opcode t) (args t) labels (int_value t) (string_value t)
          (bytes_value t) True)"

text \<open>\<open>NewPrim(T_INT)\<close>.\<close>

definition NewPrim :: "OpCode \<Rightarrow> Prim" where
  "NewPrim oc = prim_op PrimNullary oc []"

text \<open>
  The head of \<open>walkTree\<close>, from the pop of the next value to the packed type
  detection: the value and the type the walk goes on with, and the stack.
\<close>

definition walk_head :: "helpers \<Rightarrow> Type \<Rightarrow> Stack \<Rightarrow> Prim \<times> Type \<times> Stack" where
  "walk_head H typ stack =
    (case Pop stack of (val, stack) \<Rightarrow>
      (case (if \<not> was_packed val \<and> IsPair H val \<and> \<not> TypeIsPair H typ
             then Pop (Push (UnfoldPair H val typ) stack)
             else (val, stack)) of (val, stack) \<Rightarrow>
         (val,
          (if was_packed val \<and> (\<not> IsScalar H val \<or> opcode typ = T_BYTES)
           then retype H val typ else typ),
          stack)))"

text \<open>The label under which \<open>walkTree\<close> stores its result.\<close>

definition walk_label :: "helpers \<Rightarrow> gomap \<Rightarrow> string \<Rightarrow> Type \<Rightarrow> string" where
  "walk_label H m label typ =
    (if label = EMPTY_LABEL then
       (if length (Label H typ) > 0 then Label H typ else Itoa (length m))
     else label)"

definition haveLabel :: "helpers \<Rightarrow> string \<Rightarrow> Type \<Rightarrow> bool" where
  "haveLabel H label typ =
    (let haveTypeLabel = length (Label H typ) > 0;
         haveKeyLabel = (label \<noteq> EMPTY_LABEL \<and> length label > 0)
     in haveTypeLabel \<or> haveKeyLabel)"

text \<open>The lift of named content in the \<open>T_OR\<close> case, with the key \<open>@or_0\<close> or \<open>@or_1\<close>.\<close>

definition lift_or :: "gomap \<Rightarrow> string \<Rightarrow> gomap \<Rightarrow> gomap" where
  "lift_or mm orkey mmm =
    (case mmm of
       [(n, v)] \<Rightarrow> (if n = ''0'' then assign mm orkey v else assign mm n v)
     | _ \<Rightarrow> assign mm orkey (MapV mmm))"

text \<open>The lift of anonymous content that ends the \<open>T_OR\<close> case.\<close>

definition lift_anon :: "gomap \<Rightarrow> string \<Rightarrow> gomap \<Rightarrow> gomap" where
  "lift_anon m label mm =
    (case map_of mm ''0'' of
       Some v \<Rightarrow> (if length mm = 1 then assign m label v else assign m label (MapV mm))
     | None \<Rightarrow> assign m label (MapV mm))"

text \<open>
  \<open>walkTree\<close> of value.go. The map \<open>m\<close> and the stack are mutated by the Go
  code; here the function returns them as the call leaves them, or the error.
  The loops over the elements of a set, of a list, of a sequence of \<open>Elt\<close> and
  over the arguments of a pair type are \<open>walkSet\<close>, \<open>walkList\<close>, \<open>walkElts\<close>
  and \<open>walkPair\<close>. An index beyond the children of a node panics. The level
  \<open>lvl\<close> is a Go \<open>int\<close>.
\<close>

function
  walkTree :: "helpers \<Rightarrow> gomap \<Rightarrow> string \<Rightarrow> Type \<Rightarrow> Stack \<Rightarrow> int \<Rightarrow> error + (gomap \<times> Stack)"
  and walkSet :: "helpers \<Rightarrow> Type \<Rightarrow> int \<Rightarrow> Prim list \<Rightarrow> iface list \<Rightarrow> error + iface list"
  and walkList :: "helpers \<Rightarrow> Type \<Rightarrow> int \<Rightarrow> nat \<Rightarrow> Prim list \<Rightarrow> iface list \<Rightarrow> error + iface list"
  and walkElts :: "helpers \<Rightarrow> Type \<Rightarrow> int \<Rightarrow> Prim list \<Rightarrow> gomap \<Rightarrow> error + gomap"
  and walkPair :: "helpers \<Rightarrow> int \<Rightarrow> Type list \<Rightarrow> gomap \<Rightarrow> Stack \<Rightarrow> error + (gomap \<times> Stack)"
where
  "walkTree H m label0 typ0 stack0 lvl =
    (if lvl > 99 then Inl ErrMaxNesting
     else
      (case walk_head H typ0 stack0 of (val, typ, stack) \<Rightarrow>
        if \<not> TypeIsPair H typ \<and> \<not> IsSequence H val \<and> \<not> matchOpCode val (opcode typ)
        then Inl (ErrTypeMismatch (opcode typ) (ptype val) (opcode val))
        else
         (let label = walk_label H m label0 typ in
          if opcode typ = T_SET then
            (case walkSet H typ lvl (args val) [] of
               Inl err \<Rightarrow> Inl err
             | Inr arr \<Rightarrow> Inr (assign m label (Arr arr), stack))
          else if opcode typ = T_LIST then
            (case walkList H typ lvl 0 (args val) [] of
               Inl err \<Rightarrow> Inl err
             | Inr arr \<Rightarrow> Inr (assign m label (Arr arr), stack))
          else if opcode typ = T_LAMBDA then
            Inr (assign m label (PrimV val), stack)
          else if opcode typ = T_MAP \<or> opcode typ = T_BIG_MAP then
            (if opcode typ = T_BIG_MAP \<and> length (args val) = 0 then
               (if ptype val = PrimInt then Inr (assign m label (PrimValue H val T_INT), stack)
                else if ptype val = PrimSequence then Inr (assign m label GoNil, stack)
                else Inr (m, stack))
             else if ptype val = PrimBinary then
               (case args typ of
                  t0 # t1 # _ \<Rightarrow>
                    (case args val of
                       v0 # v1 # _ \<Rightarrow>
                         (let keyType = (if was_packed v0 then BuildType H v0 else t0);
                              valType = (if was_packed v1 then BuildType H v1 else t1)
                          in (case NewKey H keyType v0 of
                                Inl err \<Rightarrow> Inl err
                              | Inr key \<Rightarrow>
                                  (case walkTree H [] key valType (NewStack [v1]) (lvl + 1) of
                                     Inl err \<Rightarrow> Inl err
                                   | Inr (mm, _) \<Rightarrow> Inr (assign m label (MapV mm), stack))))
                     | _ \<Rightarrow> Inl Panic)
                | _ \<Rightarrow> Inl Panic)
             else if ptype val = PrimSequence then
               (case walkElts H typ lvl (args val) [] of
                  Inl err \<Rightarrow> Inl err
                | Inr mm \<Rightarrow> Inr (assign m label (MapV mm), stack))
             else Inl (ErrUnexpectedEltSequence (ptype val) (opcode val) (opcode typ)))
          else if opcode typ = T_PAIR then
            (let stack =
               (if IsPair H val \<and> \<not> TypeIsPair H typ then Push (UnfoldPair H val typ) stack
                else if CanUnfold H val typ then Push (args val) stack
                else Push [val] stack)
             in if haveLabel H label0 typ then
                  (case walkPair H lvl (args typ) [] stack of
                     Inl err \<Rightarrow> Inl err
                   | Inr (mm, stack) \<Rightarrow> Inr (assign m label (MapV mm), stack))
                else walkPair H lvl (args typ) m stack)
          else if opcode typ = T_OPTION then
            (if opcode val = D_NONE then Inr (assign m label GoNil, stack)
             else if opcode val = D_SOME then
               (case args typ of
                  [] \<Rightarrow> Inl Panic
                | t0 # _ \<Rightarrow>
                    (if IsScalar H val \<or> label = GetVarAnnoAny H t0 then
                       (case args val of
                          [] \<Rightarrow> Inl Panic
                        | v0 # _ \<Rightarrow>
                            (case walkTree H m label t0 (NewStack [v0]) (lvl + 1) of
                               Inl err \<Rightarrow> Inl err
                             | Inr (m, _) \<Rightarrow> Inr (m, stack)))
                     else
                       (case args val of
                          [] \<Rightarrow> Inl Panic
                        | v0 # _ \<Rightarrow>
                            (case walkTree H [] EMPTY_LABEL t0 (NewStack [v0]) (lvl + 1) of
                               Inl err \<Rightarrow> Inl err
                             | Inr (mm, _) \<Rightarrow> Inr (assign m label (MapV mm), stack)))))
             else Inl (ErrUnexpectedOption (opcode val)))
          else if opcode typ = T_OR then
            (if opcode val = D_LEFT then
               (case args typ of
                  [] \<Rightarrow> Inl Panic
                | t0 # _ \<Rightarrow>
                    (case args val of
                       [] \<Rightarrow> Inl Panic
                     | v0 # _ \<Rightarrow>
                         (case walkTree H [] EMPTY_LABEL t0 (NewStack [v0]) (lvl + 1) of
                            Inl err \<Rightarrow> Inl err
                          | Inr (mmm, _) \<Rightarrow>
                              Inr (lift_anon m label
                                     (if \<not> haveLabel H label0 typ then lift_or [] ''@or_0'' mmm
                                      else mmm),
                                   stack))))
             else if opcode val = D_RIGHT then
               (case args typ of
                  _ # t1 # _ \<Rightarrow>
                    (case args val of
                       [] \<Rightarrow> Inl Panic
                     | v0 # _ \<Rightarrow>
                         (case walkTree H [] EMPTY_LABEL t1 (NewStack [v0]) (lvl + 1) of
                            Inl err \<Rightarrow> Inl err
                          | Inr (mmm, _) \<Rightarrow>
                              Inr (lift_anon m label
                                     (if \<not> haveLabel H label0 typ then lift_or [] ''@or_1'' mmm
                                      else mmm),
                                   stack)))
                | _ \<Rightarrow> Inl Panic)
             else Inl (ErrUnexpectedOrBranch (opcode val)))
          else if opcode typ = T_TICKET then
            (case args typ of
               [] \<Rightarrow> Inl Panic
             | t0 # _ \<Rightarrow> walkTree H m label (TicketType H t0) (Push [val] stack) (lvl + 1))
          else if opcode typ = T_SAPLING_STATE then
            (case args typ of
               [] \<Rightarrow> Inl Panic
             | t0 # _ \<Rightarrow>
                 (case walkTree H [] ''memo_size'' (NewPrim T_INT) (NewStack [t0]) (lvl + 1) of
                    Inl err \<Rightarrow> Inl err
                  | Inr (mm, _) \<Rightarrow>
                      (case walkTree H mm ''content'' (BuildType H val) (NewStack [val]) (lvl + 1) of
                         Inl err \<Rightarrow> Inl err
                       | Inr (mm, _) \<Rightarrow> Inr (assign m label (MapV mm), stack))))
          else
            (case (if IsSequence H val then Pop (Push (args val) stack) else (val, stack)) of
               (val, stack) \<Rightarrow>
                 if IsScalar H val then Inr (assign m label (PrimValue H val (opcode typ)), stack)
                 else
                   (case walkTree H [] EMPTY_LABEL typ (NewStack [val]) (lvl + 1) of
                      Inl err \<Rightarrow> Inl err
                    | Inr (mm, _) \<Rightarrow> Inr (assign m label (MapV mm), stack))))))"
| "walkSet H typ lvl [] arr = Inr arr"
| "walkSet H typ lvl (v # vs) arr =
    (if IsScalar H v \<and> \<not> IsSequence H v then
       (case args typ of
          [] \<Rightarrow> Inl Panic
        | t0 # _ \<Rightarrow> walkSet H typ lvl vs (arr @ [PrimValue H v (opcode t0)]))
     else
       (case args typ of
          [] \<Rightarrow> Inl Panic
        | t0 # _ \<Rightarrow>
            (case walkTree H [] EMPTY_LABEL t0 (NewStack [v]) (lvl + 1) of
               Inl err \<Rightarrow> Inl err
             | Inr (mm, _) \<Rightarrow> walkSet H typ lvl vs (arr @ [MapV mm]))))"
| "walkList H typ lvl i [] arr = Inr arr"
| "walkList H typ lvl i (v # vs) arr =
    (case args typ of
       [] \<Rightarrow> Inl Panic
     | t0 # _ \<Rightarrow>
         (let valType = (if length (args typ) > i then args typ ! i else t0)
          in (case walkTree H [] EMPTY_LABEL valType (NewStack [v]) (lvl + 1) of
                Inl err \<Rightarrow> Inl err
              | Inr (mm, _) \<Rightarrow>
                  (case (if length mm = 1 then map_of mm ''0'' else None) of
                     Some mval \<Rightarrow> walkList H typ lvl (i + 1) vs (arr @ [mval])
                   | None \<Rightarrow> walkList H typ lvl (i + 1) vs (arr @ [MapV mm])))))"
| "walkElts H typ lvl [] mm = Inr mm"
| "walkElts H typ lvl (v # vs) mm =
    (if opcode v \<noteq> D_ELT then Inl (ErrUnexpectedEltItem (ptype v) (opcode v) (opcode typ))
     else
       (case args typ of
          t0 # t1 # _ \<Rightarrow>
            (case args v of
               v0 # v1 # _ \<Rightarrow>
                 (let keyType = (if was_packed v0 then BuildType H v0 else t0);
                      valType = (if was_packed v1 then BuildType H v1 else t1)
                  in (case NewKey H keyType v0 of
                        Inl err \<Rightarrow> Inl err
                      | Inr key \<Rightarrow>
                          (case walkTree H mm key valType (NewStack [v1]) (lvl + 1) of
                             Inl err \<Rightarrow> Inl err
                           | Inr (mm, _) \<Rightarrow> walkElts H typ lvl vs mm)))
             | _ \<Rightarrow> Inl Panic)
        | _ \<Rightarrow> Inl Panic))"
| "walkPair H lvl [] mm stack = Inr (mm, stack)"
| "walkPair H lvl (t # ts) mm stack =
    (case walkTree H mm EMPTY_LABEL t stack (lvl + 1) of
       Inl err \<Rightarrow> Inl err
     | Inr (mm, stack) \<Rightarrow> walkPair H lvl ts mm stack)"
  by pat_completeness auto
termination
proof (relation "inv_image (less_than <*lex*> less_than)
    (\<lambda>x. case x of
       Inl (Inl (H, m, label, typ, stack, lvl)) \<Rightarrow>
         (if lvl > 99 then 0 else 2 * nat (100 - lvl) + 2, 0)
     | Inl (Inr (H, typ, lvl, vs, arr)) \<Rightarrow> (2 * nat (100 - lvl) + 1, length vs)
     | Inr (Inl (H, typ, lvl, i, vs, arr)) \<Rightarrow> (2 * nat (100 - lvl) + 1, length vs)
     | Inr (Inr (Inl (H, typ, lvl, vs, mm))) \<Rightarrow> (2 * nat (100 - lvl) + 1, length vs)
     | Inr (Inr (Inr (H, lvl, ts, mm, stack))) \<Rightarrow> (2 * nat (100 - lvl) + 1, length ts))",
    goal_cases)
  case 1
  show ?case by (intro wf_inv_image wf_lex_prod wf_less_than)
qed (simp_all, linarith+)

declare walkTree.simps [simp del]

section \<open>Values\<close>

text \<open>
  \<open>type Value struct\<close> of value.go; \<open>mapped\<close> is \<open>GoNil\<close> as long as nothing is
  memoized.
\<close>

record Value =
  ValueType :: Type
  ValuePrim :: Prim
  Render :: int
  mapped :: iface

text \<open>
  \<open>Value.Map\<close> of value.go, on a pointer receiver: the result and the
  receiver as the call leaves it.
\<close>

definition Map :: "helpers \<Rightarrow> Value \<Rightarrow> (error + iface) \<times> Value" where
  "Map H e =
    (if mapped e \<noteq> GoNil then (Inr (mapped e), e)
     else
       (case walkTree H [] EMPTY_LABEL (ValueType e) (NewStack [ValuePrim e]) 0 of
          Inl err \<Rightarrow> (Inl err, e)
        | Inr (m, _) \<Rightarrow>
            (let e = e\<lparr>mapped := MapV m\<rparr>;
                 e = (case m of
                        [(n, v)] \<Rightarrow> (if n = ''0'' then e\<lparr>mapped := v\<rparr> else e)
                      | _ \<Rightarrow> e)
             in (Inr (mapped e), e))))"




section \<open>Typed getters\<close>

text \<open>
  What the getters call outside the source files read here: \<open>getPath\<close> of this
  package and the parsers of the Go library (\<open>strconv.ParseInt\<close> in base 10
  and 64 bits, \<open>big.Int.SetString\<close> in base 10, \<open>strconv.ParseBool\<close> and
  \<open>time.Parse\<close>, whose first argument is the layout and whose second is the
  text to parse). A time is its seconds since the epoch.
\<close>

record env =
  getPath :: "iface \<Rightarrow> string \<Rightarrow> iface \<times> bool"
  ParseInt :: "string \<Rightarrow> int option"
  SetString :: "string \<Rightarrow> int option"
  ParseBool :: "string \<Rightarrow> bool option"
  time_Parse :: "string \<Rightarrow> string \<Rightarrow> int option"

definition RFC3339 :: string where
  "RFC3339 = ''2006-01-02T15:04:05Z07:00''"

text \<open>\<open>time.Time{}\<close>, the first second of year 1.\<close>

definition zero_Time :: int where
  "zero_Time = - 62135596800"

text \<open>\<open>big.Int.Int64\<close>: the low 64 bits, signed.\<close>

definition Int64 :: "int \<Rightarrow> int" where
  "Int64 t = sint (word_of_int t :: 64 word)"

text \<open>
  \<open>Value.GetInt64\<close>, \<open>Value.GetBig\<close>, \<open>Value.GetBool\<close> and \<open>Value.GetTime\<close> of
  value.go: the two results, and the receiver as \<open>Map\<close> leaves it. A nil
  \<open>*big.Int\<close> result is \<open>None\<close>.
\<close>

definition GetInt64 :: "env \<Rightarrow> helpers \<Rightarrow> Value \<Rightarrow> string \<Rightarrow> (int \<times> bool) \<times> Value" where
  "GetInt64 E H v label =
    (case Map H v of
       (Inl err, v) \<Rightarrow> ((0, False), v)
     | (Inr m, v) \<Rightarrow>
         (case getPath E m label of
            (vv, ok) \<Rightarrow>
              if ok then
                (if vv = GoNil then ((0, ok), v)
                 else
                   (case vv of
                      BigInt t \<Rightarrow> ((Int64 t, True), v)
                    | Str t \<Rightarrow>
                        (case ParseInt E t of
                           Some i \<Rightarrow> ((i, True), v)
                         | None \<Rightarrow> ((0, False), v))
                    | _ \<Rightarrow> ((0, False), v)))
              else ((0, False), v)))"

definition GetBig :: "env \<Rightarrow> helpers \<Rightarrow> Value \<Rightarrow> string \<Rightarrow> (int option \<times> bool) \<times> Value" where
  "GetBig E H v label =
    (case Map H v of
       (Inl err, v) \<Rightarrow> ((None, False), v)
     | (Inr m, v) \<Rightarrow>
         (case getPath E m label of
            (vv, ok) \<Rightarrow>
              if ok then
                (if vv = GoNil then ((Some 0, ok), v)
                 else
                   (case vv of
                      BigInt t \<Rightarrow> ((Some t, True), v)
                    | Str t \<Rightarrow>
                        (case SetString E t of
                           Some z \<Rightarrow> ((Some z, True), v)
                         | None \<Rightarrow> ((None, False), v))
                    | _ \<Rightarrow> ((None, False), v)))
              else ((None, False), v)))"

definition GetBool :: "env \<Rightarrow> helpers \<Rightarrow> Value \<Rightarrow> string \<Rightarrow> (bool \<times> bool) \<times> Value" where
  "GetBool E H v label =
    (case Map H v of
       (Inl err, v) \<Rightarrow> ((False, False), v)
     | (Inr m, v) \<Rightarrow>
         (case getPath E m label of
            (vv, ok) \<Rightarrow>
              if ok then
                (if vv = GoNil then ((False, ok), v)
                 else
                   (case vv of
                      Bool t \<Rightarrow> ((t, True), v)
                    | Str t \<Rightarrow>
                        (case ParseBool E t of
                           Some b \<Rightarrow> ((b, True), v)
                         | None \<Rightarrow> ((False, False), v))
                    | _ \<Rightarrow> ((False, False), v)))
              else ((False, False), v)))"

definition GetTime :: "env \<Rightarrow> helpers \<Rightarrow> Value \<Rightarrow> string \<Rightarrow> (int \<times> bool) \<times> Value" where
  "GetTime E H v label =
    (case Map H v of
       (Inl err, v) \<Rightarrow> ((zero_Time, False), v)
     | (Inr m, v) \<Rightarrow>
         (case getPath E m label of
            (vv, ok) \<Rightarrow>
              if ok then
                (if vv = GoNil then ((zero_Time, ok), v)
                 else
                   (case vv of
                      Time t \<Rightarrow> ((t, True), v)
                    | Str t \<Rightarrow>
                        (case time_Parse E t RFC3339 of
                           Some b \<Rightarrow> ((b, True), v)
                         | None \<Rightarrow> ((zero_Time, False), v))
                    | _ \<Rightarrow> ((zero_Time, False), v)))
              else ((zero_Time, False), v)))"

section \<open>Scenarios\<close>

text \<open>
  Modelled from the spec: the helper methods of which the specification
  gives an account, over any record \<open>H0\<close> for the others. \<open>IsPair\<close> holds
  of a pair node (section 4.4), \<open>IsSequence\<close> of the sequence shape
  (section 3), and \<open>Label\<close> is the first \<open>%\<close>-annotation of the root, else
  the first \<open>@\<close>-annotation, else empty (section 4.4), without the sigil.
\<close>

definition Label_spec :: "Type \<Rightarrow> string" where
  "Label_spec typ =
    (case find (\<lambda>a. take 1 a = ''%'') (anno typ) of
       Some a \<Rightarrow> drop 1 a
     | None \<Rightarrow>
         (case find (\<lambda>a. take 1 a = ''@'') (anno typ) of
            Some a \<Rightarrow> drop 1 a
          | None \<Rightarrow> []))"

definition spec_helpers :: "helpers \<Rightarrow> helpers" where
  "spec_helpers H0 =
    H0\<lparr>IsPair := (\<lambda>p. opcode p = D_PAIR \<or> opcode p = T_PAIR),
       TypeIsPair := (\<lambda>t. opcode t = T_PAIR),
       IsSequence := (\<lambda>p. ptype p = PrimSequence),
       Label := Label_spec\<rparr>"

text \<open>
  Modelled from the spec: \<open>getPath\<close>, the lookup of a slash-delimited path
  in the labelled map (section 6).
\<close>

fun path_lookup :: "string list \<Rightarrow> iface \<Rightarrow> iface \<times> bool" where
  "path_lookup [] v = (v, True)"
| "path_lookup (k # ks) v =
    (case v of
       MapV m \<Rightarrow>
         (case map_of m k of
            None \<Rightarrow> (GoNil, False)
          | Some v' \<Rightarrow> path_lookup ks v')
     | _ \<Rightarrow> (GoNil, False))"

definition getPath_spec :: "iface \<Rightarrow> string \<Rightarrow> iface \<times> bool" where
  "getPath_spec m label = path_lookup (Split label CHR ''/'') m"

text \<open>The values of the scenarios: \<open>None\<close>, a string, and the types \<open>option int\<close> and \<open>int\<close>.\<close>

definition prim_none :: Prim where
  "prim_none = prim_op PrimNullary D_NONE []"


definition option_int :: "string list \<Rightarrow> Type" where
  "option_int an =
    Prim (if an = [] then PrimUnary else PrimUnaryAnno) T_OPTION [NewPrim T_INT] an 0 [] [] False"

definition NewValue :: "Type \<Rightarrow> Prim \<Rightarrow> Value" where
  "NewValue typ val = \<lparr>ValueType = typ, ValuePrim = val, Render = RENDER_TYPE_PRIM, mapped = GoNil\<rparr>"

text \<open>
  Two results of a walk, the first from a deeper level than the second: they
  are the same, unless the deeper walk ran into the nesting bound.
\<close>

definition same_or_max :: "error + 'a \<Rightarrow> error + 'a \<Rightarrow> bool" where
  "same_or_max a b \<longleftrightarrow> a = Inl ErrMaxNesting \<or> b = a"

text \<open>
  The type \<open>option (... (option int))\<close> with \<open>n + 1\<close> options and the value
  \<open>Some (... (Some None))\<close> with \<open>n\<close> wrappers: a walk \<open>n + 1\<close> levels deep.
\<close>

primrec option_chain :: "nat \<Rightarrow> Type" where
  "option_chain 0 = option_int []"
| "option_chain (Suc n) = prim_op PrimUnary T_OPTION [option_chain n]"

primrec some_chain :: "nat \<Rightarrow> Prim" where
  "some_chain 0 = prim_none"
| "some_chain (Suc n) = prim_op PrimUnary D_SOME [some_chain n]"

section \<open>The calls of a walk\<close>

text \<open>
  An invocation of \<open>walkTree\<close> or of one of its loops, with its arguments.
\<close>

datatype call =
    WalkTree gomap string Type Stack int
  | WalkSet Type int "Prim list" "iface list"
  | WalkList Type int nat "Prim list" "iface list"
  | WalkElts Type int "Prim list" gomap
  | WalkPair int "Type list" gomap Stack

text \<open>The error that an invocation returns, if it returns one.\<close>

fun call_error :: "helpers \<Rightarrow> call \<Rightarrow> error option" where
  "call_error H (WalkTree m label typ stack lvl) =
    (case walkTree H m label typ stack lvl of Inl err \<Rightarrow> Some err | Inr _ \<Rightarrow> None)"
| "call_error H (WalkSet typ lvl vs arr) =
    (case walkSet H typ lvl vs arr of Inl err \<Rightarrow> Some err | Inr _ \<Rightarrow> None)"
| "call_error H (WalkList typ lvl i vs arr) =
    (case walkList H typ lvl i vs arr of Inl err \<Rightarrow> Some err | Inr _ \<Rightarrow> None)"
| "call_error H (WalkElts typ lvl vs mm) =
    (case walkElts H typ lvl vs mm of Inl err \<Rightarrow> Some err | Inr _ \<Rightarrow> None)"
| "call_error H (WalkPair lvl ts mm stack) =
    (case walkPair H lvl ts mm stack of Inl err \<Rightarrow> Some err | Inr _ \<Rightarrow> None)"

text \<open>
  An invocation of \<open>walkTree\<close> passes the level guard and the mismatch check
  and goes on with the value \<open>val\<close>, the type \<open>typ\<close> and the stack \<open>stack\<close>.
\<close>

definition walk_enters ::
  "helpers \<Rightarrow> Type \<Rightarrow> Stack \<Rightarrow> int \<Rightarrow> Prim \<Rightarrow> Type \<Rightarrow> Stack \<Rightarrow> bool" where
  "walk_enters H typ0 stack0 lvl val typ stack \<longleftrightarrow>
     \<not> lvl > 99 \<and> walk_head H typ0 stack0 = (val, typ, stack)
     \<and> \<not> (\<not> TypeIsPair H typ \<and> \<not> IsSequence H val \<and> \<not> matchOpCode val (opcode typ))"

text \<open>
  The calls that an invocation makes while it runs, one rule for each call
  of \<open>walkTree\<close> in value.go and for each round of its loops, under the
  conditions on which the code gets there. A call that follows another one
  in the same body is made when the first has returned without error.
\<close>

inductive calls :: "helpers \<Rightarrow> call \<Rightarrow> call \<Rightarrow> bool" for H :: helpers where
  set_loop:
    "walk_enters H typ0 stack0 lvl val typ stack \<Longrightarrow> opcode typ = T_SET \<Longrightarrow>
     calls H (WalkTree m label0 typ0 stack0 lvl) (WalkSet typ lvl (args val) [])"
| list_loop:
    "walk_enters H typ0 stack0 lvl val typ stack \<Longrightarrow> opcode typ = T_LIST \<Longrightarrow>
     calls H (WalkTree m label0 typ0 stack0 lvl) (WalkList typ lvl 0 (args val) [])"
| map_single:
    "walk_enters H typ0 stack0 lvl val typ stack \<Longrightarrow>
     opcode typ = T_MAP \<or> opcode typ = T_BIG_MAP \<Longrightarrow>
     \<not> (opcode typ = T_BIG_MAP \<and> length (args val) = 0) \<Longrightarrow>
     ptype val = PrimBinary \<Longrightarrow>
     args typ = t0 # t1 # ts \<Longrightarrow> args val = v0 # v1 # vs \<Longrightarrow>
     NewKey H (if was_packed v0 then BuildType H v0 else t0) v0 = Inr key \<Longrightarrow>
     calls H (WalkTree m label0 typ0 stack0 lvl)
       (WalkTree [] key (if was_packed v1 then BuildType H v1 else t1) (NewStack [v1]) (lvl + 1))"
| map_elts:
    "walk_enters H typ0 stack0 lvl val typ stack \<Longrightarrow>
     opcode typ = T_MAP \<or> opcode typ = T_BIG_MAP \<Longrightarrow>
     \<not> (opcode typ = T_BIG_MAP \<and> length (args val) = 0) \<Longrightarrow>
     ptype val = PrimSequence \<Longrightarrow>
     calls H (WalkTree m label0 typ0 stack0 lvl) (WalkElts typ lvl (args val) [])"
| pair_args:
    "walk_enters H typ0 stack0 lvl val typ stack \<Longrightarrow> opcode typ = T_PAIR \<Longrightarrow>
     calls H (WalkTree m label0 typ0 stack0 lvl)
       (WalkPair lvl (args typ) (if haveLabel H label0 typ then [] else m)
          (if IsPair H val \<and> \<not> TypeIsPair H typ then Push (UnfoldPair H val typ) stack
           else if CanUnfold H val typ then Push (args val) stack
           else Push [val] stack))"
| option_some:
    "walk_enters H typ0 stack0 lvl val typ stack \<Longrightarrow> opcode typ = T_OPTION \<Longrightarrow>
     opcode val = D_SOME \<Longrightarrow> args typ = t0 # ts \<Longrightarrow> args val = v0 # vs \<Longrightarrow>
     calls H (WalkTree m label0 typ0 stack0 lvl)
       (if IsScalar H val \<or> walk_label H m label0 typ = GetVarAnnoAny H t0
        then WalkTree m (walk_label H m label0 typ) t0 (NewStack [v0]) (lvl + 1)
        else WalkTree [] EMPTY_LABEL t0 (NewStack [v0]) (lvl + 1))"
| or_left:
    "walk_enters H typ0 stack0 lvl val typ stack \<Longrightarrow> opcode typ = T_OR \<Longrightarrow>
     opcode val = D_LEFT \<Longrightarrow> args typ = t0 # ts \<Longrightarrow> args val = v0 # vs \<Longrightarrow>
     calls H (WalkTree m label0 typ0 stack0 lvl)
       (WalkTree [] EMPTY_LABEL t0 (NewStack [v0]) (lvl + 1))"
| or_right:
    "walk_enters H typ0 stack0 lvl val typ stack \<Longrightarrow> opcode typ = T_OR \<Longrightarrow>
     opcode val = D_RIGHT \<Longrightarrow> args typ = t0 # t1 # ts \<Longrightarrow> args val = v0 # vs \<Longrightarrow>
     calls H (WalkTree m label0 typ0 stack0 lvl)
       (WalkTree [] EMPTY_LABEL t1 (NewStack [v0]) (lvl + 1))"
| ticket:
    "walk_enters H typ0 stack0 lvl val typ stack \<Longrightarrow> opcode typ = T_TICKET \<Longrightarrow>
     args typ = t0 # ts \<Longrightarrow>
     calls H (WalkTree m label0 typ0 stack0 lvl)
       (WalkTree m (walk_label H m label0 typ) (TicketType H t0) (Push [val] stack) (lvl + 1))"
| sapling_memo:
    "walk_enters H typ0 stack0 lvl val typ stack \<Longrightarrow> opcode typ = T_SAPLING_STATE \<Longrightarrow>
     args typ = t0 # ts \<Longrightarrow>
     calls H (WalkTree m label0 typ0 stack0 lvl)
       (WalkTree [] ''memo_size'' (NewPrim T_INT) (NewStack [t0]) (lvl + 1))"
| sapling_content:
    "walk_enters H typ0 stack0 lvl val typ stack \<Longrightarrow> opcode typ = T_SAPLING_STATE \<Longrightarrow>
     args typ = t0 # ts \<Longrightarrow>
     walkTree H [] ''memo_size'' (NewPrim T_INT) (NewStack [t0]) (lvl + 1) = Inr (mm, st) \<Longrightarrow>
     calls H (WalkTree m label0 typ0 stack0 lvl)
       (WalkTree mm ''content'' (BuildType H val) (NewStack [val]) (lvl + 1))"
| other_type:
    "walk_enters H typ0 stack0 lvl val typ stack \<Longrightarrow>
     opcode typ \<notin> {T_SET, T_LIST, T_LAMBDA, T_MAP, T_BIG_MAP, T_PAIR, T_OPTION, T_OR,
                    T_TICKET, T_SAPLING_STATE} \<Longrightarrow>
     (if IsSequence H val then Pop (Push (args val) stack) else (val, stack)) = (val', stack') \<Longrightarrow>
     \<not> IsScalar H val' \<Longrightarrow>
     calls H (WalkTree m label0 typ0 stack0 lvl)
       (WalkTree [] EMPTY_LABEL typ (NewStack [val']) (lvl + 1))"
| set_elem:
    "\<not> (IsScalar H v \<and> \<not> IsSequence H v) \<Longrightarrow> args typ = t0 # ts \<Longrightarrow>
     calls H (WalkSet typ lvl (v # vs) arr)
       (WalkTree [] EMPTY_LABEL t0 (NewStack [v]) (lvl + 1))"
| set_next_scalar:
    "IsScalar H v \<and> \<not> IsSequence H v \<Longrightarrow> args typ = t0 # ts \<Longrightarrow>
     calls H (WalkSet typ lvl (v # vs) arr)
       (WalkSet typ lvl vs (arr @ [PrimValue H v (opcode t0)]))"
| set_next:
    "\<not> (IsScalar H v \<and> \<not> IsSequence H v) \<Longrightarrow> args typ = t0 # ts \<Longrightarrow>
     walkTree H [] EMPTY_LABEL t0 (NewStack [v]) (lvl + 1) = Inr (mm, st) \<Longrightarrow>
     calls H (WalkSet typ lvl (v # vs) arr) (WalkSet typ lvl vs (arr @ [MapV mm]))"
| list_elem:
    "args typ = t0 # ts \<Longrightarrow>
     calls H (WalkList typ lvl i (v # vs) arr)
       (WalkTree [] EMPTY_LABEL (if length (args typ) > i then args typ ! i else t0)
          (NewStack [v]) (lvl + 1))"
| list_next:
    "args typ = t0 # ts \<Longrightarrow>
     walkTree H [] EMPTY_LABEL (if length (args typ) > i then args typ ! i else t0)
       (NewStack [v]) (lvl + 1) = Inr (mm, st) \<Longrightarrow>
     calls H (WalkList typ lvl i (v # vs) arr)
       (WalkList typ lvl (i + 1) vs
          (arr @ [case (if length mm = 1 then map_of mm ''0'' else None) of
                    Some mval \<Rightarrow> mval
                  | None \<Rightarrow> MapV mm]))"
| elts_elem:
    "opcode v = D_ELT \<Longrightarrow> args typ = t0 # t1 # ts \<Longrightarrow> args v = v0 # v1 # vs' \<Longrightarrow>
     NewKey H (if was_packed v0 then BuildType H v0 else t0) v0 = Inr key \<Longrightarrow>
     calls H (WalkElts typ lvl (v # vs) mm)
       (WalkTree mm key (if was_packed v1 then BuildType H v1 else t1) (NewStack [v1]) (lvl + 1))"
| elts_next:
    "opcode v = D_ELT \<Longrightarrow> args typ = t0 # t1 # ts \<Longrightarrow> args v = v0 # v1 # vs' \<Longrightarrow>
     NewKey H (if was_packed v0 then BuildType H v0 else t0) v0 = Inr key \<Longrightarrow>
     walkTree H mm key (if was_packed v1 then BuildType H v1 else t1) (NewStack [v1]) (lvl + 1)
       = Inr (mm', st) \<Longrightarrow>
     calls H (WalkElts typ lvl (v # vs) mm) (WalkElts typ lvl vs mm')"
| pair_elem:
    "calls H (WalkPair lvl (t # ts) mm stack) (WalkTree mm EMPTY_LABEL t stack (lvl + 1))"
| pair_next:
    "walkTree H mm EMPTY_LABEL t stack (lvl + 1) = Inr (mm', stack') \<Longrightarrow>
     calls H (WalkPair lvl (t # ts) mm stack) (WalkPair lvl ts mm' stack')"

text \<open>
  The walk of an invocation requires nesting deeper than 99: through the
  calls it makes, it gets to an invocation of \<open>walkTree\<close> at a level above 99.
\<close>

definition requires_deeper :: "helpers \<Rightarrow> call \<Rightarrow> bool" where
  "requires_deeper H c \<longleftrightarrow>
     (\<exists>m label typ stack lvl. (calls H)\<^sup>*\<^sup>* c (WalkTree m label typ stack lvl) \<and> 99 < lvl)"

text \<open>
  Modelled from the spec: \<open>IsScalar\<close> holds of the three shapes that carry
  a scalar payload (section 3). The value \<open>Elt 1 2\<close> is not scalar.
\<close>

definition scalar_helpers :: "helpers \<Rightarrow> helpers" where
  "scalar_helpers H0 =
    (spec_helpers H0)\<lparr>IsScalar := (\<lambda>p. ptype p \<in> {PrimInt, PrimString, PrimBytes})\<rparr>"

definition prim_elt :: Prim where
  "prim_elt = prim_op PrimBinary D_ELT [prim_int 1, prim_int 2]"

section \<open>Properties of the compatibility check\<close>

lemma shape_of_scalar:
  "ptype p = PrimSequence \<Longrightarrow> shape_of p = SeqShape"
  "ptype p = PrimInt \<Longrightarrow> shape_of p = IntShape"
  "ptype p = PrimString \<Longrightarrow> shape_of p = StringShape"
  "ptype p = PrimBytes \<Longrightarrow> shape_of p = BytesShape"
  by (simp_all add: shape_of_def)

lemma shape_of_application:
  "is_application p \<Longrightarrow> shape_of p = AppShape (opcode p)"
  by (simp add: shape_of_def is_application_def)

lemma table_match_application:
  "is_application p \<Longrightarrow> table_match p oc =
     (if opcode p = D_PAIR then oc \<in> {T_PAIR, T_OR, T_LIST, T_OPTION, T_TICKET}
      else if opcode p = D_SOME \<or> opcode p = D_NONE then oc = T_OPTION
      else if opcode p = D_UNIT then oc \<in> {T_UNIT, K_PARAMETER}
      else if opcode p = D_LEFT \<or> opcode p = D_RIGHT then oc = T_OR
      else False)"
  by (auto simp add: table_match_def shape_of_application compat_table_def)

lemma matchOpCode_application:
  "is_application p \<Longrightarrow> matchOpCode p oc =
     (if opcode p = D_PAIR then oc \<in> {T_PAIR, T_OR, T_LIST, T_OPTION, T_TICKET}
      else if opcode p = D_SOME \<or> opcode p = D_NONE then oc = T_OPTION
      else if opcode p = D_UNIT then oc \<in> {T_UNIT, K_PARAMETER}
      else if opcode p = D_LEFT \<or> opcode p = D_RIGHT then oc = T_OR
      else True)"
  by (cases "ptype p") (simp_all add: matchOpCode_def is_application_def)

lemma matchOpCode_scalar:
  "\<not> is_application p \<Longrightarrow> matchOpCode p oc = table_match p oc"
  by (cases "ptype p")
     (simp_all add: matchOpCode_def is_application_def table_match_def
        shape_of_scalar compat_table_def)

text \<open>
  Claim C2, as stated: \<open>matchOpCode\<close> accepts exactly the combinations of the
  table of section 4.6.1. It does not: a \<open>D_TRUE\<close> node is accepted against
  \<open>T_INT\<close>, a combination the table does not list.
\<close>

theorem matchOpCode_table_counterexample:
  "matchOpCode (prim_op PrimNullary D_TRUE []) T_INT
   \<and> \<not> table_match (prim_op PrimNullary D_TRUE []) T_INT"
  by (simp add: matchOpCode_def table_match_def shape_of_def compat_table_def prim_op_def)

text \<open>
  Claim C2, amended: \<open>matchOpCode\<close> accepts the combinations of the table of
  section 4.6.1 and, besides them, every application-shaped value whose opcode
  is none of \<open>D_PAIR\<close>, \<open>D_SOME\<close>, \<open>D_NONE\<close>, \<open>D_UNIT\<close>, \<open>D_LEFT\<close>, \<open>D_RIGHT\<close>,
  against any type opcode; it rejects everything else.
\<close>

theorem matchOpCode_table:
  "matchOpCode p oc \<longleftrightarrow>
     table_match p oc \<or> (is_application p \<and> opcode p \<notin> checked_value_opcodes)"
proof (cases "is_application p")
  case True
  then show ?thesis
    by (simp add: matchOpCode_application table_match_application checked_value_opcodes_def)
next
  case False
  then show ?thesis by (simp add: matchOpCode_scalar)
qed

theorem matchOpCode_table_witness:
  "matchOpCode (prim_op PrimBinary D_ELT []) T_MAP
   \<and> \<not> table_match (prim_op PrimBinary D_ELT []) T_MAP
   \<and> is_application (prim_op PrimBinary D_ELT [])
   \<and> opcode (prim_op PrimBinary D_ELT []) \<notin> checked_value_opcodes
   \<and> \<not> matchOpCode (prim_op PrimNullary D_UNIT []) T_INT
   \<and> matchOpCode (prim_int 7) T_NAT"
  using matchOpCode_table [of "prim_op PrimBinary D_ELT []" T_MAP]
    matchOpCode_table [of "prim_op PrimNullary D_UNIT []" T_INT]
    matchOpCode_table [of "prim_int 7" T_NAT]
  by (simp add: table_match_def shape_of_def compat_table_def prim_op_def prim_int_def
      is_application_def checked_value_opcodes_def)

section \<open>Properties of the binary envelope\<close>

lemma char_of_byte_of_char: "char_of_byte (byte_of_char c) = c"
proof -
  have "of_char c < (256::nat)" by (cases c) simp
  then have "unat (word_of_nat (of_char c) :: byte) = of_char c"
    by (simp add: unat_of_nat)
  then show ?thesis by (simp add: char_of_byte_def byte_of_char_def)
qed

lemma comp_char_of_byte: "map (char_of_byte \<circ> byte_of_char) s = s"
  by (induction s) (simp_all add: char_of_byte_of_char)

lemma length_put_uint32: "length (put_uint32 n) = 4"
  by (simp add: put_uint32_def)

lemma unat_length_byte: "n \<le> 255 \<Longrightarrow> unat (word_of_nat n :: byte) = n"
  by (simp add: unat_of_nat)

lemma be32_recompose:
  fixes k :: nat
  assumes "k < 4294967296"
  shows "k div 16777216 * 16777216 + k div 65536 mod 256 * 65536
        + k div 256 mod 256 * 256 + k mod 256 = k"
proof -
  have a: "k = k div 256 * 256 + k mod 256" by simp
  have e: "k div 65536 = k div 256 div 256" "k div 16777216 = k div 65536 div 256"
    using div_mult2_eq [of k 256 256] div_mult2_eq [of k 65536 256] by simp_all
  have b: "k div 256 = k div 256 div 256 * 256 + k div 256 mod 256"
    by (simp only: div_mult_mod_eq)
  have c: "k div 65536 = k div 65536 div 256 * 256 + k div 65536 mod 256"
    by (simp only: div_mult_mod_eq)
  show ?thesis using a b c e by linarith
qed

lemma get_put_uint32: "get_uint32 (put_uint32 n) = Inr (n mod 2 ^ 32)"
proof -
  define k where "k = n mod 4294967296"
  have k: "k < 4294967296" by (simp add: k_def)
  have d: "k div 16777216 mod 256 = k div 16777216"
    using k by simp
  show ?thesis
    using be32_recompose [OF k]
    by (simp add: get_uint32_def put_uint32_def unat_of_nat d flip: k_def)
qed

lemma MarshalBinary_named:
  assumes "name \<notin> special_entrypoints" and "enc v = Inr body"
  shows "MarshalBinary enc \<lparr>Entrypoint = name, Value = v\<rparr> =
           Inr ([1, 255, word_of_nat (length name)] @ map byte_of_char name
                @ put_uint32 (length body) @ body)"
  using assms
  by (simp add: MarshalBinary_def special_entrypoints_def length_put_uint32)

lemma UnmarshalBinary_named:
  assumes "length name \<le> 255" and "dec body = Inr v"
  shows "UnmarshalBinary dec p
           ([1, 255, word_of_nat (length name)] @ map byte_of_char name
            @ put_uint32 (length body) @ body) =
         (None, p\<lparr>Entrypoint := name, Value := v\<rparr>)"
  using assms
  by (simp add: UnmarshalBinary_def unat_length_byte comp_char_of_byte
      length_put_uint32 get_put_uint32 Let_def not_less)

lemma zarith_rest_0: "zarith_rest 0 = []"
  by (simp add: zarith_rest.simps)

lemma EncodeBuffer_int_42: "EncodeBuffer op_tag (prim_int 42) = [0, 42]"
  by (simp add: prim_int_def zarith_def zarith_rest_0)

text \<open>
  Claim C4, at the envelope that breaks it. With the empty entrypoint and a
  \<open>D_UNIT\<close> value the binary form is the single byte \<open>0x00\<close>; with the
  entrypoint \<open>default\<close> and the same value \<open>MarshalBinary\<close> writes the long
  form, eight bytes starting with \<open>0x01 0x00\<close>, although \<open>MarshalJSON\<close> treats
  the two envelopes alike.
\<close>

theorem MarshalBinary_default_unit:
  "MarshalBinary (\<lambda>v. Inr (EncodeBuffer op_tag v))
     \<lparr>Entrypoint = ''default'', Value = prim_op PrimNullary D_UNIT []\<rparr>
     = Inr [1, 0, 0, 0, 0, 2, 3, op_tag D_UNIT]
   \<and> MarshalBinary (\<lambda>v. Inr (EncodeBuffer op_tag v))
       \<lparr>Entrypoint = [], Value = prim_op PrimNullary D_UNIT []\<rparr>
     = Inr [0]
   \<and> Parameters_MarshalJSON json_Marshal
       \<lparr>Entrypoint = ''default'', Value = prim_op PrimNullary D_UNIT []\<rparr>
     = Parameters_MarshalJSON json_Marshal
       \<lparr>Entrypoint = [], Value = prim_op PrimNullary D_UNIT []\<rparr>"
  by (simp add: MarshalBinary_def Parameters_MarshalJSON_def prim_op_def put_uint32_def)

text \<open>
  Claim C5: for an entrypoint name outside the six names with a tag of their
  own and of at most 255 bytes, \<open>MarshalBinary\<close> writes \<open>0x01\<close>, the tag
  \<open>0xFF\<close>, one byte holding the length of the name, the name, the 32-bit
  size of the payload and the payload; and \<open>UnmarshalBinary\<close> on these bytes
  returns no error and sets the same name and, the node decoder inverting the
  node encoder on the payload, the same value.
\<close>

theorem named_entrypoint_roundtrip:
  assumes "name \<notin> special_entrypoints" and "length name \<le> 255"
    and "enc v = Inr body" and "dec body = Inr v"
  shows "MarshalBinary enc \<lparr>Entrypoint = name, Value = v\<rparr> =
           Inr ([1, 255, word_of_nat (length name)] @ map byte_of_char name
                @ put_uint32 (length body) @ body)
         \<and> unat (word_of_nat (length name) :: byte) = length name
         \<and> UnmarshalBinary dec p
              ([1, 255, word_of_nat (length name)] @ map byte_of_char name
               @ put_uint32 (length body) @ body)
            = (None, p\<lparr>Entrypoint := name, Value := v\<rparr>)"
proof (intro conjI)
  show "MarshalBinary enc \<lparr>Entrypoint = name, Value = v\<rparr> =
           Inr ([1, 255, word_of_nat (length name)] @ map byte_of_char name
                @ put_uint32 (length body) @ body)"
    using assms(1,3) by (rule MarshalBinary_named)
  show "unat (word_of_nat (length name) :: byte) = length name"
    using assms(2) by (rule unat_length_byte)
  show "UnmarshalBinary dec p
              ([1, 255, word_of_nat (length name)] @ map byte_of_char name
               @ put_uint32 (length body) @ body)
            = (None, p\<lparr>Entrypoint := name, Value := v\<rparr>)"
    using assms(2,4) by (rule UnmarshalBinary_named)
qed

theorem named_entrypoint_roundtrip_witness:
  "MarshalBinary (\<lambda>v. Inr (EncodeBuffer (\<lambda>_. 0) v)) \<lparr>Entrypoint = ''mint'', Value = prim_int 42\<rparr>
     = Inr [1, 255, 4, 0x6D, 0x69, 0x6E, 0x74, 0, 0, 0, 2, 0, 42]
   \<and> UnmarshalBinary (\<lambda>bs. if bs = [0, 42] then Inr (prim_int 42) else Inl (ErrCodec 0))
        \<lparr>Entrypoint = [], Value = zero_Prim\<rparr>
        [1, 255, 4, 0x6D, 0x69, 0x6E, 0x74, 0, 0, 0, 2, 0, 42]
      = (None, \<lparr>Entrypoint = ''mint'', Value = prim_int 42\<rparr>)"
  using named_entrypoint_roundtrip [of "''mint''" "\<lambda>v. Inr (EncodeBuffer (\<lambda>_. 0) v)" "prim_int 42" "[0, 42]"
      "\<lambda>bs. if bs = [0, 42] then Inr (prim_int 42) else Inl (ErrCodec 0)" "\<lparr>Entrypoint = [], Value = zero_Prim\<rparr>"]
  by (simp add: special_entrypoints_def EncodeBuffer_int_42 byte_of_char_def put_uint32_def)

text \<open>
  Claim C6: the binary form of the envelope with entrypoint \<open>mint\<close> and the
  integer 42 as value is \<open>01 FF 04 6D 69 6E 74 00 00 00 02 00 2A\<close>, whatever
  the wire tags of the opcodes are.
\<close>

theorem MarshalBinary_mint_42:
  "MarshalBinary (\<lambda>v. Inr (EncodeBuffer op_tag v)) \<lparr>Entrypoint = ''mint'', Value = prim_int 42\<rparr>
     = Inr [0x01, 0xFF, 0x04, 0x6D, 0x69, 0x6E, 0x74, 0x00, 0x00, 0x00, 0x02, 0x00, 0x2A]"
  by (simp add: MarshalBinary_def EncodeBuffer_int_42 put_uint32_def byte_of_char_def)

section \<open>Properties of entrypoint routing\<close>




section \<open>Properties of the walk and of the getters\<close>

lemma Itoa_0: "Itoa 0 = ''0''"
  by (simp add: Itoa.simps digit_char_def)

lemma walkTree_none:
  "walkTree (spec_helpers H0) [] EMPTY_LABEL (option_int []) (NewStack [prim_none]) 0
     = Inr ([(''0'', GoNil)], [])"
  by (subst walkTree.simps)
     (simp add: walk_head_def Pop_def NewStack_def prim_none_def prim_op_def spec_helpers_def
        option_int_def matchOpCode_def walk_label_def Label_spec_def Itoa_0 EMPTY_LABEL_def)

lemma walkTree_none_a:
  "walkTree (spec_helpers H0) [] EMPTY_LABEL (option_int [''%a'']) (NewStack [prim_none]) 0
     = Inr ([(''a'', GoNil)], [])"
  by (subst walkTree.simps)
     (simp add: walk_head_def Pop_def NewStack_def prim_none_def prim_op_def spec_helpers_def
        option_int_def matchOpCode_def walk_label_def Label_spec_def Itoa_0 EMPTY_LABEL_def)



lemma Map_none_a:
  "Map (spec_helpers H0) (NewValue (option_int [''%a'']) prim_none)
     = (Inr (MapV [(''a'', GoNil)]),
        (NewValue (option_int [''%a'']) prim_none)\<lparr>mapped := MapV [(''a'', GoNil)]\<rparr>)"
  by (simp add: Map_def NewValue_def walkTree_none_a)



text \<open>
  Claim C8, at a value that breaks it. The walk of \<open>None\<close> against
  \<open>option int\<close> succeeds with the map \<open>{"0": nil}\<close>, which \<open>Map\<close> lifts to
  \<open>nil\<close>: the call returns \<open>nil\<close> and leaves \<open>mapped\<close> at \<open>nil\<close>, the state in
  which \<open>Map\<close> walks the tree. The receiver after the call is the receiver
  before it, so every later call walks again.
\<close>

theorem Map_none_not_memoized:
  "Map (spec_helpers H0) (NewValue (option_int []) prim_none)
     = (Inr GoNil, NewValue (option_int []) prim_none)
   \<and> mapped (NewValue (option_int []) prim_none) = GoNil
   \<and> walkTree (spec_helpers H0) [] EMPTY_LABEL (option_int []) (NewStack [prim_none]) 0
       = Inr ([(''0'', GoNil)], [])"
  by (simp add: Map_def NewValue_def walkTree_none)

lemma Map_memoized:
  assumes "Map H e = (Inr r, e')" and "r \<noteq> GoNil"
  shows "Map H e' = (Inr r, e') \<and> mapped e' = r
         \<and> ValueType e' = ValueType e \<and> ValuePrim e' = ValuePrim e"
proof (cases "mapped e = GoNil")
  case False
  then show ?thesis using assms by (auto simp add: Map_def)
next
  case True
  then obtain m st where w: "walkTree H [] EMPTY_LABEL (ValueType e) (NewStack [ValuePrim e]) 0 = Inr (m, st)"
    using assms(1) by (auto simp add: Map_def split: sum.splits)
  have "mapped e' = r \<and> ValueType e' = ValueType e \<and> ValuePrim e' = ValuePrim e"
    using assms(1) True w
    by (auto simp add: Map_def Let_def split: list.splits prod.splits if_splits)
  then show ?thesis using assms(2) by (simp add: Map_def)
qed

text \<open>
  Claim C9, at a value that breaks it. When the labelled map binds the label
  to a string, \<open>GetTime\<close> hands the string of the map to \<open>time.Parse\<close> as
  the layout and the constant \<open>RFC3339\<close> as the text to parse, the two
  arguments exchanged.
\<close>

theorem GetTime_layout_swapped:
  "fst (GetTime (E\<lparr>getPath := getPath_spec\<rparr>) H
          \<lparr>ValueType = typ, ValuePrim = val, Render = r,
           mapped = MapV [(''ts'', Str ''2021-01-01T00:00:00Z'')]\<rparr> ''ts'')
     = (case time_Parse E ''2021-01-01T00:00:00Z'' ''2006-01-02T15:04:05Z07:00'' of
          Some b \<Rightarrow> (b, True)
        | None \<Rightarrow> (zero_Time, False))"
  by (simp add: GetTime_def Map_def getPath_spec_def RFC3339_def split: option.split)

lemma GetTime_string:
  assumes "Map H v = (Inr m, v')" and "getPath E m label = (Str t, True)"
  shows "fst (GetTime E H v label)
           = (case time_Parse E t RFC3339 of Some b \<Rightarrow> (b, True) | None \<Rightarrow> (zero_Time, False))"
  using assms by (simp add: GetTime_def split: option.split)

text \<open>
  Claim C10: when \<open>Map\<close> succeeds and the labelled map binds the path to
  \<open>nil\<close>, \<open>GetInt64\<close> returns 0 and true, \<open>GetBig\<close> a big integer 0 and true,
  and \<open>GetBool\<close> false and true.
\<close>

theorem getters_on_null:
  assumes "Map H v = (Inr m, v')" and "getPath E m label = (GoNil, True)"
  shows "fst (GetInt64 E H v label) = (0, True)
       \<and> fst (GetBig E H v label) = (Some 0, True)
       \<and> fst (GetBool E H v label) = (False, True)"
  using assms by (simp add: GetInt64_def GetBig_def GetBool_def)

theorem getters_on_null_witness:
  "\<forall>H0 E0.
     fst (GetInt64 (E0\<lparr>getPath := getPath_spec\<rparr>) (spec_helpers H0)
            (NewValue (option_int [''%a'']) prim_none) ''a'') = (0, True)
   \<and> fst (GetBig (E0\<lparr>getPath := getPath_spec\<rparr>) (spec_helpers H0)
            (NewValue (option_int [''%a'']) prim_none) ''a'') = (Some 0, True)
   \<and> fst (GetBool (E0\<lparr>getPath := getPath_spec\<rparr>) (spec_helpers H0)
            (NewValue (option_int [''%a'']) prim_none) ''a'') = (False, True)"
proof (intro allI)
  fix H0 :: helpers and E0 :: env
  have p: "getPath (E0\<lparr>getPath := getPath_spec\<rparr>) (MapV [(''a'', GoNil)]) ''a'' = (GoNil, True)"
    by (simp add: getPath_spec_def)
  show "fst (GetInt64 (E0\<lparr>getPath := getPath_spec\<rparr>) (spec_helpers H0)
            (NewValue (option_int [''%a'']) prim_none) ''a'') = (0, True)
   \<and> fst (GetBig (E0\<lparr>getPath := getPath_spec\<rparr>) (spec_helpers H0)
            (NewValue (option_int [''%a'']) prim_none) ''a'') = (Some 0, True)
   \<and> fst (GetBool (E0\<lparr>getPath := getPath_spec\<rparr>) (spec_helpers H0)
            (NewValue (option_int [''%a'']) prim_none) ''a'') = (False, True)"
    using getters_on_null [OF Map_none_a p] .
qed

section \<open>The nesting bound of the walk\<close>

lemma same_or_max_refl: "same_or_max a a"
  by (simp add: same_or_max_def)

lemma same_or_max_bind:
  assumes "same_or_max a b" and "\<And>y. a = Inr y \<Longrightarrow> same_or_max (f y) (g y)"
  shows "same_or_max (case_sum Inl f a) (case_sum Inl g b)"
  using assms by (cases a) (auto simp add: same_or_max_def)

lemma walkTree_max_depth:
  "lvl > 99 \<Longrightarrow> walkTree H m label typ stack lvl = Inl ErrMaxNesting"
  by (subst walkTree.simps) simp

lemma same_or_max_walkSet:
  assumes Q: "\<And>m label typ stack. same_or_max (walkTree H m label typ stack (lvl + 1))
                                       (walkTree H m label typ stack (lvl' + 1))"
  shows "same_or_max (walkSet H typ lvl vs arr) (walkSet H typ lvl' vs arr)"
proof (induction vs arbitrary: arr)
  case Nil
  show ?case by (simp add: same_or_max_refl)
next
  case (Cons v vs)
  show ?case
    by (auto simp add: same_or_max_refl Cons.IH split: list.split prod.split intro!: same_or_max_bind Q)
qed

lemma same_or_max_walkList:
  assumes Q: "\<And>m label typ stack. same_or_max (walkTree H m label typ stack (lvl + 1))
                                       (walkTree H m label typ stack (lvl' + 1))"
  shows "same_or_max (walkList H typ lvl i vs arr) (walkList H typ lvl' i vs arr)"
proof (induction vs arbitrary: arr i)
  case Nil
  show ?case by (simp add: same_or_max_refl)
next
  case (Cons v vs)
  show ?case
    by (auto simp add: same_or_max_refl Cons.IH Let_def split: list.split prod.split option.split
        intro!: same_or_max_bind Q)
qed

lemma same_or_max_walkElts:
  assumes Q: "\<And>m label typ stack. same_or_max (walkTree H m label typ stack (lvl + 1))
                                       (walkTree H m label typ stack (lvl' + 1))"
  shows "same_or_max (walkElts H typ lvl vs mm) (walkElts H typ lvl' vs mm)"
proof (induction vs arbitrary: mm)
  case Nil
  show ?case by (simp add: same_or_max_refl)
next
  case (Cons v vs)
  show ?case
    by (auto simp add: Cons.IH Let_def split: list.split prod.split
        intro!: same_or_max_bind Q same_or_max_refl)
qed

lemma same_or_max_walkPair:
  assumes Q: "\<And>m label typ stack. same_or_max (walkTree H m label typ stack (lvl + 1))
                                       (walkTree H m label typ stack (lvl' + 1))"
  shows "same_or_max (walkPair H lvl ts mm stack) (walkPair H lvl' ts mm stack)"
proof (induction ts arbitrary: mm stack)
  case Nil
  show ?case by (simp add: same_or_max_refl)
next
  case (Cons t ts)
  show ?case
    by (auto simp add: same_or_max_refl Cons.IH split: prod.split intro!: same_or_max_bind Q)
qed


lemma same_or_max_bind_iff:
  assumes "same_or_max a b"
  shows "same_or_max (case_sum Inl f a) (case_sum Inl g b) \<longleftrightarrow> (\<forall>y. a = Inr y \<longrightarrow> same_or_max (f y) (g y))"
  using assms by (cases a) (auto simp add: same_or_max_def)

lemma same_or_max_walkTree_step:
  assumes Q: "\<And>m label typ stack. same_or_max (walkTree H m label typ stack (lvl + 1))
                                       (walkTree H m label typ stack (lvl' + 1))"
    and le: "lvl' \<le> lvl"
  shows "same_or_max (walkTree H m label typ stack lvl) (walkTree H m label typ stack lvl')"
proof (cases "lvl > 99")
  case True
  then show ?thesis by (simp add: walkTree_max_depth same_or_max_def)
next
  case False
  with le have l: "\<not> lvl > 99" "\<not> lvl' > 99" by simp_all
  note loops = same_or_max_walkSet [of H lvl lvl', OF Q] same_or_max_walkList [of H lvl lvl', OF Q]
    same_or_max_walkElts [of H lvl lvl', OF Q] same_or_max_walkPair [of H lvl lvl', OF Q]
  show ?thesis
    apply (simp only: walkTree.simps [of H m "label" "typ" "stack" "lvl"]
        walkTree.simps [of H m "label" "typ" "stack" "lvl'"])
    apply (simp only: l if_False)
    apply (simp add: Let_def same_or_max_bind_iff Q same_or_max_refl loops split: list.split prod.split)
    done
qed


lemma same_or_max_walkTree:
  assumes "0 \<le> d"
  shows "same_or_max (walkTree H m lab ty st lvl) (walkTree H m lab ty st (lvl - d))"
proof (induction "nat (100 - lvl)" arbitrary: lvl m lab ty st rule: less_induct)
  case less
  show ?case
  proof (rule same_or_max_walkTree_step)
    fix m' lab' ty' st'
    show "same_or_max (walkTree H m' lab' ty' st' (lvl + 1))
              (walkTree H m' lab' ty' st' (lvl - d + 1))"
    proof (cases "lvl > 99")
      case True
      then show ?thesis by (simp add: walkTree_max_depth same_or_max_def)
    next
      case False
      then have "nat (100 - (lvl + 1)) < nat (100 - lvl)" by simp
      from less.hyps [OF this, of m' lab' ty' st'] show ?thesis
        by (simp add: algebra_simps)
    qed
  next
    show "lvl - d \<le> lvl" using assms by simp
  qed
qed

text \<open>
  Every call returns the error of a call it makes: the errors of the walk
  are never caught on the way up.
\<close>

lemma call_error_iff:
  "call_error H (WalkTree m lab ty st lvl) = Some e \<longleftrightarrow> walkTree H m lab ty st lvl = Inl e"
  "call_error H (WalkSet ty lvl vs arr) = Some e \<longleftrightarrow> walkSet H ty lvl vs arr = Inl e"
  "call_error H (WalkList ty lvl i vs arr) = Some e \<longleftrightarrow> walkList H ty lvl i vs arr = Inl e"
  "call_error H (WalkElts ty lvl vs mm) = Some e \<longleftrightarrow> walkElts H ty lvl vs mm = Inl e"
  "call_error H (WalkPair lvl ts mm st) = Some e \<longleftrightarrow> walkPair H lvl ts mm st = Inl e"
  by (simp_all split: sum.split)

lemma calls_error:
  assumes "calls H c c'" and "call_error H c' = Some e"
  shows "call_error H c = Some e"
  using assms
  by (induction rule: calls.induct;
      (simp only: call_error_iff)?; (subst walkTree.simps)?; (elim disjE)?;
      auto simp add: walk_enters_def call_error_iff Let_def if_distrib [of "call_error H"]
        simp del: call_error.simps split: option.splits)


lemma requires_deeper_error:
  assumes "requires_deeper H c"
  shows "call_error H c = Some ErrMaxNesting"
proof -
  from assms obtain m lab ty st lvl where
    r: "(calls H)\<^sup>*\<^sup>* c (WalkTree m lab ty st lvl)" and l: "99 < lvl"
    by (auto simp add: requires_deeper_def)
  from r show ?thesis
  proof (induction rule: converse_rtranclp_induct)
    case base
    show ?case using l by (simp add: walkTree_max_depth)
  next
    case (step c c')
    then show ?case by (simp add: calls_error)
  qed
qed


text \<open>
  Conversely, when \<open>NewKey\<close> never returns the max-nesting error, a call
  that returns this error requires nesting deeper than 99: the error has no
  other origin, and the relation \<open>calls\<close> leaves out no call of the walker.
\<close>

lemma deeper_step:
  "calls H c c' \<Longrightarrow> requires_deeper H c' \<Longrightarrow> requires_deeper H c"
  unfolding requires_deeper_def by (blast intro: converse_rtranclp_into_rtranclp)

lemma no_calls_above:
  "99 < lvl \<Longrightarrow> \<not> calls H (WalkTree m lab ty st lvl) c'"
  by (auto elim!: calls.cases simp add: walk_enters_def)

lemma deeper_base: "99 < lvl \<Longrightarrow> requires_deeper H (WalkTree m lab ty st lvl)"
  unfolding requires_deeper_def by blast

lemma deeper_walkSet:
  assumes Q: "\<And>m lab ty st. walkTree H m lab ty st (lvl + 1) = Inl ErrMaxNesting \<Longrightarrow>
                requires_deeper H (WalkTree m lab ty st (lvl + 1))"
  shows "walkSet H typ lvl vs arr = Inl ErrMaxNesting \<Longrightarrow> requires_deeper H (WalkSet typ lvl vs arr)"
proof (induction vs arbitrary: arr)
  case Nil
  then show ?case by simp
next
  case (Cons v vs)
  from Cons.prems show ?case
    by (auto split: list.splits sum.splits prod.splits if_splits
        intro: deeper_step [OF calls.set_elem] deeper_step [OF calls.set_next_scalar]
          deeper_step [OF calls.set_next] Q Cons.IH)
qed

lemma deeper_walkPair:
  assumes Q: "\<And>m lab ty st. walkTree H m lab ty st (lvl + 1) = Inl ErrMaxNesting \<Longrightarrow>
                requires_deeper H (WalkTree m lab ty st (lvl + 1))"
  shows "walkPair H lvl ts mm st = Inl ErrMaxNesting \<Longrightarrow> requires_deeper H (WalkPair lvl ts mm st)"
proof (induction ts arbitrary: mm st)
  case Nil
  then show ?case by simp
next
  case (Cons t ts)
  from Cons.prems show ?case
    by (auto split: list.splits sum.splits prod.splits if_splits
        intro: deeper_step [OF calls.pair_elem] deeper_step [OF calls.pair_next] Q Cons.IH)
qed


lemma deeper_walkList:
  assumes Q: "\<And>m lab ty st. walkTree H m lab ty st (lvl + 1) = Inl ErrMaxNesting \<Longrightarrow>
                requires_deeper H (WalkTree m lab ty st (lvl + 1))"
  shows "walkList H typ lvl i vs arr = Inl ErrMaxNesting \<Longrightarrow> requires_deeper H (WalkList typ lvl i vs arr)"
proof (induction vs arbitrary: arr i)
  case Nil
  then show ?case by simp
next
  case (Cons v vs)
  show ?case
  proof (cases "args typ")
    case Nil
    with Cons.prems show ?thesis by simp
  next
    case (Cons t0 ts)
    let ?vt = "if length (args typ) > i then args typ ! i else t0"
    show ?thesis
    proof (cases "walkTree H [] EMPTY_LABEL ?vt (NewStack [v]) (lvl + 1)")
      case (Inl e)
      with Cons.prems \<open>args typ = t0 # ts\<close> have "e = ErrMaxNesting"
        by (simp add: Let_def)
      with Inl have "requires_deeper H (WalkTree [] EMPTY_LABEL ?vt (NewStack [v]) (lvl + 1))"
        by (simp add: Q)
      with calls.list_elem [OF \<open>args typ = t0 # ts\<close>, of H lvl i v vs arr] show ?thesis
        by (rule deeper_step)
    next
      case (Inr r)
      obtain mm st where r: "r = (mm, st)" by (cases r)
      let ?x = "case (if length mm = 1 then map_of mm ''0'' else None) of
                  Some mval \<Rightarrow> mval | None \<Rightarrow> MapV mm"
      from Cons.prems \<open>args typ = t0 # ts\<close> Inr r
      have "walkList H typ lvl (i + 1) vs (arr @ [?x]) = Inl ErrMaxNesting"
        by (simp add: Let_def split: option.splits if_splits)
      then have "requires_deeper H (WalkList typ lvl (i + 1) vs (arr @ [?x]))"
        by (rule Cons.IH)
      with calls.list_next [OF \<open>args typ = t0 # ts\<close>, of H i v lvl mm st vs arr] Inr r
      show ?thesis by (simp add: deeper_step)
    qed
  qed
qed

lemma deeper_walkElts:
  assumes Q: "\<And>m lab ty st. walkTree H m lab ty st (lvl + 1) = Inl ErrMaxNesting \<Longrightarrow>
                requires_deeper H (WalkTree m lab ty st (lvl + 1))"
    and nk: "\<And>t p. NewKey H t p \<noteq> Inl ErrMaxNesting"
  shows "walkElts H typ lvl vs mm = Inl ErrMaxNesting \<Longrightarrow> requires_deeper H (WalkElts typ lvl vs mm)"
proof (induction vs arbitrary: mm)
  case Nil
  then show ?case by simp
next
  case (Cons v vs)
  from Cons.prems nk obtain t0 t1 ts v0 v1 vs' key where
    f: "opcode v = D_ELT" "args typ = t0 # t1 # ts" "args v = v0 # v1 # vs'"
       "NewKey H (if was_packed v0 then BuildType H v0 else t0) v0 = Inr key"
    and g: "walkTree H mm key (if was_packed v1 then BuildType H v1 else t1) (NewStack [v1]) (lvl + 1)
              = Inl ErrMaxNesting
            \<or> (\<exists>mm' st. walkTree H mm key (if was_packed v1 then BuildType H v1 else t1)
                            (NewStack [v1]) (lvl + 1) = Inr (mm', st)
                  \<and> walkElts H typ lvl vs mm' = Inl ErrMaxNesting)"
    by (auto simp add: Let_def split: list.splits sum.splits prod.splits if_splits)
  from g show ?case
  proof
    assume "walkTree H mm key (if was_packed v1 then BuildType H v1 else t1) (NewStack [v1]) (lvl + 1)
              = Inl ErrMaxNesting"
    then have "requires_deeper H
        (WalkTree mm key (if was_packed v1 then BuildType H v1 else t1) (NewStack [v1]) (lvl + 1))"
      by (rule Q)
    with calls.elts_elem [OF f, of lvl vs mm] show ?thesis by (rule deeper_step)
  next
    assume "\<exists>mm' st. walkTree H mm key (if was_packed v1 then BuildType H v1 else t1)
                            (NewStack [v1]) (lvl + 1) = Inr (mm', st)
                  \<and> walkElts H typ lvl vs mm' = Inl ErrMaxNesting"
    then obtain mm' st where
      w: "walkTree H mm key (if was_packed v1 then BuildType H v1 else t1)
            (NewStack [v1]) (lvl + 1) = Inr (mm', st)"
      and e: "walkElts H typ lvl vs mm' = Inl ErrMaxNesting" by blast
    from e have "requires_deeper H (WalkElts typ lvl vs mm')" by (rule Cons.IH)
    with calls.elts_next [OF f w, of vs] show ?thesis by (rule deeper_step)
  qed
qed


lemma deeper_walkTree_step:
  assumes Q: "\<And>m lab ty st. walkTree H m lab ty st (lvl + 1) = Inl ErrMaxNesting \<Longrightarrow>
                requires_deeper H (WalkTree m lab ty st (lvl + 1))"
    and nk: "\<And>t p. NewKey H t p \<noteq> Inl ErrMaxNesting"
    and A: "walkTree H m lab0 ty0 stk0 lvl = Inl ErrMaxNesting"
  shows "requires_deeper H (WalkTree m lab0 ty0 stk0 lvl)"
proof (cases "99 < lvl")
  case True
  then show ?thesis by (rule deeper_base)
next
  case False
  obtain vl ty stk where h: "walk_head H ty0 stk0 = (vl, ty, stk)"
    by (cases "walk_head H ty0 stk0") auto
  have nm: "\<not> (\<not> TypeIsPair H ty \<and> \<not> IsSequence H vl \<and> \<not> matchOpCode vl (opcode ty))"
  proof
    assume "\<not> TypeIsPair H ty \<and> \<not> IsSequence H vl \<and> \<not> matchOpCode vl (opcode ty)"
    with A False h show False
      by (subst (asm) walkTree.simps) simp
  qed
  have en: "walk_enters H ty0 stk0 lvl vl ty stk"
    using False h nm by (simp add: walk_enters_def)
  note E = walkTree.simps [of H m lab0 ty0 stk0 lvl,
      unfolded if_not_P [OF False] h prod.case if_not_P [OF nm]]
  note B = A [unfolded E]
  let ?caller = "WalkTree m lab0 ty0 stk0 lvl"
  let ?label = "walk_label H m lab0 ty"
  consider (is_set) "opcode ty = T_SET" | (is_list) "opcode ty = T_LIST"
    | (is_lambda) "opcode ty = T_LAMBDA"
    | (is_map) "opcode ty = T_MAP \<or> opcode ty = T_BIG_MAP"
    | (is_pair) "opcode ty = T_PAIR" | (is_option) "opcode ty = T_OPTION"
    | (is_or) "opcode ty = T_OR" | (is_ticket) "opcode ty = T_TICKET"
    | (is_sapling) "opcode ty = T_SAPLING_STATE"
    | (is_other) "opcode ty \<notin> {T_SET, T_LIST, T_LAMBDA, T_MAP, T_BIG_MAP, T_PAIR, T_OPTION, T_OR,
                    T_TICKET, T_SAPLING_STATE}"
    by auto
  then show ?thesis
  proof cases
    case is_set
    with B have "walkSet H ty lvl (args vl) [] = Inl ErrMaxNesting"
      by (simp add: Let_def split: sum.splits)
    then have "requires_deeper H (WalkSet ty lvl (args vl) [])"
      by (rule deeper_walkSet [rotated]) (erule Q)
    with calls.set_loop [OF en is_set, of m lab0] show ?thesis by (rule deeper_step)
  next
    case is_list
    with B have "walkList H ty lvl 0 (args vl) [] = Inl ErrMaxNesting"
      by (simp add: Let_def split: sum.splits)
    then have "requires_deeper H (WalkList ty lvl 0 (args vl) [])"
      by (rule deeper_walkList [rotated]) (erule Q)
    with calls.list_loop [OF en is_list, of m lab0] show ?thesis by (rule deeper_step)
  next
    case is_lambda
    with B show ?thesis by (simp add: Let_def)
  next
    case is_map
    then have o: "opcode ty \<noteq> T_SET" "opcode ty \<noteq> T_LIST" "opcode ty \<noteq> T_LAMBDA" by auto
    from B is_map o have nref: "\<not> (opcode ty = T_BIG_MAP \<and> length (args vl) = 0)"
      by (auto simp add: Let_def split: if_splits)
    from B is_map o nref nk have
      "(\<exists>t0 t1 ts v0 v1 vs key. ptype vl = PrimBinary \<and> args ty = t0 # t1 # ts
          \<and> args vl = v0 # v1 # vs
          \<and> NewKey H (if was_packed v0 then BuildType H v0 else t0) v0 = Inr key
          \<and> walkTree H [] key (if was_packed v1 then BuildType H v1 else t1) (NewStack [v1]) (lvl + 1)
               = Inl ErrMaxNesting)
       \<or> (ptype vl = PrimSequence \<and> walkElts H ty lvl (args vl) [] = Inl ErrMaxNesting)"
      by (simp add: Let_def split: if_splits list.splits sum.splits prod.splits) auto
    then show ?thesis
    proof
      assume "\<exists>t0 t1 ts v0 v1 vs key. ptype vl = PrimBinary \<and> args ty = t0 # t1 # ts
          \<and> args vl = v0 # v1 # vs
          \<and> NewKey H (if was_packed v0 then BuildType H v0 else t0) v0 = Inr key
          \<and> walkTree H [] key (if was_packed v1 then BuildType H v1 else t1) (NewStack [v1]) (lvl + 1)
               = Inl ErrMaxNesting"
      then obtain t0 t1 ts v0 v1 vs key where
        f: "ptype vl = PrimBinary" "args ty = t0 # t1 # ts" "args vl = v0 # v1 # vs"
           "NewKey H (if was_packed v0 then BuildType H v0 else t0) v0 = Inr key"
        and w: "walkTree H [] key (if was_packed v1 then BuildType H v1 else t1) (NewStack [v1]) (lvl + 1)
               = Inl ErrMaxNesting"
        by blast
      from w have "requires_deeper H
          (WalkTree [] key (if was_packed v1 then BuildType H v1 else t1) (NewStack [v1]) (lvl + 1))"
        by (rule Q)
      with calls.map_single [OF en is_map nref f, of m lab0] show ?thesis by (rule deeper_step)
    next
      assume a: "ptype vl = PrimSequence \<and> walkElts H ty lvl (args vl) [] = Inl ErrMaxNesting"
      then have "walkElts H ty lvl (args vl) [] = Inl ErrMaxNesting" by simp
      then have "requires_deeper H (WalkElts ty lvl (args vl) [])"
        by (rule deeper_walkElts [rotated 2]) (erule Q, rule nk)
      with calls.map_elts [OF en is_map nref, of m lab0] a show ?thesis
        by (simp add: deeper_step)
    qed
  next
    case is_pair
    let ?st = "if IsPair H vl \<and> \<not> TypeIsPair H ty then Push (UnfoldPair H vl ty) stk
               else if CanUnfold H vl ty then Push (args vl) stk
               else Push [vl] stk"
    from B is_pair have
      "walkPair H lvl (args ty) (if haveLabel H lab0 ty then [] else m) ?st = Inl ErrMaxNesting"
      by (auto simp add: Let_def split: if_splits sum.splits prod.splits)
    then have "requires_deeper H
        (WalkPair lvl (args ty) (if haveLabel H lab0 ty then [] else m) ?st)"
      by (rule deeper_walkPair [rotated]) (erule Q)
    with calls.pair_args [OF en is_pair, of m lab0] show ?thesis by (rule deeper_step)
  next
    case is_option
    let ?callee = "\<lambda>t0 v0. if IsScalar H vl \<or> ?label = GetVarAnnoAny H t0
        then WalkTree m ?label t0 (NewStack [v0]) (lvl + 1)
        else WalkTree [] EMPTY_LABEL t0 (NewStack [v0]) (lvl + 1)"
    from B is_option have
      "\<exists>t0 ts v0 vs. opcode vl = D_SOME \<and> args ty = t0 # ts \<and> args vl = v0 # vs
         \<and> call_error H (?callee t0 v0) = Some ErrMaxNesting"
      by (auto simp add: Let_def call_error_iff if_distrib [of "call_error H"]
          split: if_splits list.splits sum.splits prod.splits simp del: call_error.simps)
    then obtain t0 ts v0 vs where
      f: "opcode vl = D_SOME" "args ty = t0 # ts" "args vl = v0 # vs"
      and w: "call_error H (?callee t0 v0) = Some ErrMaxNesting"
      by blast
    from w have "requires_deeper H (?callee t0 v0)"
      by (auto simp add: call_error_iff if_distrib [of "call_error H"] Q
          simp del: call_error.simps split: if_splits)
    with calls.option_some [OF en is_option f, of m lab0] show ?thesis by (rule deeper_step)
  next
    case is_or
    from B is_or have
      "(\<exists>t0 ts v0 vs. opcode vl = D_LEFT \<and> args ty = t0 # ts \<and> args vl = v0 # vs
          \<and> walkTree H [] EMPTY_LABEL t0 (NewStack [v0]) (lvl + 1) = Inl ErrMaxNesting)
       \<or> (\<exists>t0 t1 ts v0 vs. opcode vl = D_RIGHT \<and> args ty = t0 # t1 # ts \<and> args vl = v0 # vs
          \<and> walkTree H [] EMPTY_LABEL t1 (NewStack [v0]) (lvl + 1) = Inl ErrMaxNesting)"
      by (auto simp add: Let_def split: if_splits list.splits sum.splits prod.splits)
    then show ?thesis
    proof
      assume "\<exists>t0 ts v0 vs. opcode vl = D_LEFT \<and> args ty = t0 # ts \<and> args vl = v0 # vs
          \<and> walkTree H [] EMPTY_LABEL t0 (NewStack [v0]) (lvl + 1) = Inl ErrMaxNesting"
      then obtain t0 ts v0 vs where
        f: "opcode vl = D_LEFT" "args ty = t0 # ts" "args vl = v0 # vs"
        and w: "walkTree H [] EMPTY_LABEL t0 (NewStack [v0]) (lvl + 1) = Inl ErrMaxNesting"
        by blast
      from w have "requires_deeper H (WalkTree [] EMPTY_LABEL t0 (NewStack [v0]) (lvl + 1))"
        by (rule Q)
      with calls.or_left [OF en is_or f, of m lab0] show ?thesis by (rule deeper_step)
    next
      assume "\<exists>t0 t1 ts v0 vs. opcode vl = D_RIGHT \<and> args ty = t0 # t1 # ts \<and> args vl = v0 # vs
          \<and> walkTree H [] EMPTY_LABEL t1 (NewStack [v0]) (lvl + 1) = Inl ErrMaxNesting"
      then obtain t0 t1 ts v0 vs where
        f: "opcode vl = D_RIGHT" "args ty = t0 # t1 # ts" "args vl = v0 # vs"
        and w: "walkTree H [] EMPTY_LABEL t1 (NewStack [v0]) (lvl + 1) = Inl ErrMaxNesting"
        by blast
      from w have "requires_deeper H (WalkTree [] EMPTY_LABEL t1 (NewStack [v0]) (lvl + 1))"
        by (rule Q)
      with calls.or_right [OF en is_or f, of m lab0] show ?thesis by (rule deeper_step)
    qed
  next
    case is_ticket
    from B is_ticket have
      "\<exists>t0 ts. args ty = t0 # ts
         \<and> walkTree H m ?label (TicketType H t0) (Push [vl] stk) (lvl + 1) = Inl ErrMaxNesting"
      by (auto simp add: Let_def split: list.splits)
    then obtain t0 ts where f: "args ty = t0 # ts"
      and w: "walkTree H m ?label (TicketType H t0) (Push [vl] stk) (lvl + 1) = Inl ErrMaxNesting"
      by blast
    from w have "requires_deeper H (WalkTree m ?label (TicketType H t0) (Push [vl] stk) (lvl + 1))"
      by (rule Q)
    with calls.ticket [OF en is_ticket f, of m lab0] show ?thesis by (rule deeper_step)
  next
    case is_sapling
    let ?memo = "walkTree H [] ''memo_size'' (NewPrim T_INT)"
    from B is_sapling have
      "\<exists>t0 ts. args ty = t0 # ts
         \<and> (?memo (NewStack [t0]) (lvl + 1) = Inl ErrMaxNesting
            \<or> (\<exists>mm st. ?memo (NewStack [t0]) (lvl + 1) = Inr (mm, st)
                  \<and> walkTree H mm ''content'' (BuildType H vl) (NewStack [vl]) (lvl + 1)
                       = Inl ErrMaxNesting))"
      by (auto simp add: Let_def split: list.splits sum.splits prod.splits)
    then obtain t0 ts where f: "args ty = t0 # ts"
      and w: "?memo (NewStack [t0]) (lvl + 1) = Inl ErrMaxNesting
            \<or> (\<exists>mm st. ?memo (NewStack [t0]) (lvl + 1) = Inr (mm, st)
                  \<and> walkTree H mm ''content'' (BuildType H vl) (NewStack [vl]) (lvl + 1)
                       = Inl ErrMaxNesting)"
      by blast
    from w show ?thesis
    proof
      assume "?memo (NewStack [t0]) (lvl + 1) = Inl ErrMaxNesting"
      then have "requires_deeper H
          (WalkTree [] ''memo_size'' (NewPrim T_INT) (NewStack [t0]) (lvl + 1))"
        by (rule Q)
      with calls.sapling_memo [OF en is_sapling f, of m lab0] show ?thesis by (rule deeper_step)
    next
      assume "\<exists>mm st. ?memo (NewStack [t0]) (lvl + 1) = Inr (mm, st)
                  \<and> walkTree H mm ''content'' (BuildType H vl) (NewStack [vl]) (lvl + 1)
                       = Inl ErrMaxNesting"
      then obtain mm st where r: "?memo (NewStack [t0]) (lvl + 1) = Inr (mm, st)"
        and c: "walkTree H mm ''content'' (BuildType H vl) (NewStack [vl]) (lvl + 1)
                  = Inl ErrMaxNesting"
        by blast
      from c have "requires_deeper H
          (WalkTree mm ''content'' (BuildType H vl) (NewStack [vl]) (lvl + 1))"
        by (rule Q)
      with calls.sapling_content [OF en is_sapling f r, of m lab0] show ?thesis
        by (rule deeper_step)
    qed
  next
    case is_other
    obtain vl' stk' where
      p: "(if IsSequence H vl then Pop (Push (args vl) stk) else (vl, stk)) = (vl', stk')"
      by (cases "if IsSequence H vl then Pop (Push (args vl) stk) else (vl, stk)") auto
    from B is_other p have ns: "\<not> IsScalar H vl'"
      and w: "walkTree H [] EMPTY_LABEL ty (NewStack [vl']) (lvl + 1) = Inl ErrMaxNesting"
      by (auto simp add: Let_def split: if_splits sum.splits prod.splits)
    from w have "requires_deeper H (WalkTree [] EMPTY_LABEL ty (NewStack [vl']) (lvl + 1))"
      by (rule Q)
    with calls.other_type [OF en is_other p ns, of m lab0] show ?thesis by (rule deeper_step)
  qed
qed


lemma deeper_of_walkTree_error:
  assumes nk: "\<And>t p. NewKey H t p \<noteq> Inl ErrMaxNesting"
  shows "walkTree H m lab ty st lvl = Inl ErrMaxNesting \<Longrightarrow>
         requires_deeper H (WalkTree m lab ty st lvl)"
proof (induction "nat (100 - lvl)" arbitrary: lvl m lab ty st rule: less_induct)
  case less
  show ?case
  proof (rule deeper_walkTree_step [OF _ nk less.prems])
    fix m' lab' ty' st'
    assume a: "walkTree H m' lab' ty' st' (lvl + 1) = Inl ErrMaxNesting"
    show "requires_deeper H (WalkTree m' lab' ty' st' (lvl + 1))"
    proof (cases "99 < lvl")
      case True
      then show ?thesis by (simp add: deeper_base)
    next
      case False
      then have "nat (100 - (lvl + 1)) < nat (100 - lvl)" by simp
      from less.hyps [OF this a] show ?thesis .
    qed
  qed
qed

lemma deeper_of_error:
  assumes nk: "\<And>t p. NewKey H t p \<noteq> Inl ErrMaxNesting"
    and e: "call_error H c = Some ErrMaxNesting"
  shows "requires_deeper H c"
proof (cases c)
  case (WalkTree m lab ty st lvl)
  with e show ?thesis by (simp add: call_error_iff deeper_of_walkTree_error [OF nk] del: call_error.simps)
next
  case (WalkSet ty lvl vs arr)
  with e have "walkSet H ty lvl vs arr = Inl ErrMaxNesting"
    by (simp add: call_error_iff del: call_error.simps)
  then have "requires_deeper H (WalkSet ty lvl vs arr)"
    by (rule deeper_walkSet [rotated]) (erule deeper_of_walkTree_error [OF nk])
  with WalkSet show ?thesis by simp
next
  case (WalkList ty lvl i vs arr)
  with e have "walkList H ty lvl i vs arr = Inl ErrMaxNesting"
    by (simp add: call_error_iff del: call_error.simps)
  then have "requires_deeper H (WalkList ty lvl i vs arr)"
    by (rule deeper_walkList [rotated]) (erule deeper_of_walkTree_error [OF nk])
  with WalkList show ?thesis by simp
next
  case (WalkElts ty lvl vs mm)
  with e have "walkElts H ty lvl vs mm = Inl ErrMaxNesting"
    by (simp add: call_error_iff del: call_error.simps)
  then have "requires_deeper H (WalkElts ty lvl vs mm)"
    by (rule deeper_walkElts [rotated 2]) (erule deeper_of_walkTree_error [OF nk], rule nk)
  with WalkElts show ?thesis by simp
next
  case (WalkPair lvl ts mm st)
  with e have "walkPair H lvl ts mm st = Inl ErrMaxNesting"
    by (simp add: call_error_iff del: call_error.simps)
  then have "requires_deeper H (WalkPair lvl ts mm st)"
    by (rule deeper_walkPair [rotated]) (erule deeper_of_walkTree_error [OF nk])
  with WalkPair show ?thesis by simp
qed


text \<open>
  Two walks that require nesting deeper than 99: the one of \<open>Elt 1 2\<close>
  against \<open>int\<close>, which \<open>walkTree\<close> repeats on the same type and value at
  every level, and the one of a chain of options.
\<close>

lemma elt_loop_calls:
  assumes "\<not> 99 < lvl"
  shows "calls (scalar_helpers H0) (WalkTree m lab (NewPrim T_INT) (NewStack [prim_elt]) lvl)
           (WalkTree [] EMPTY_LABEL (NewPrim T_INT) (NewStack [prim_elt]) (lvl + 1))"
proof (rule calls.other_type [where val = prim_elt and stack = "[]" and stack' = "[]"])
  show "walk_enters (scalar_helpers H0) (NewPrim T_INT) (NewStack [prim_elt]) lvl prim_elt (NewPrim T_INT) []"
    using assms
    by (simp add: walk_enters_def walk_head_def Pop_def NewStack_def prim_elt_def prim_op_def
        scalar_helpers_def spec_helpers_def NewPrim_def matchOpCode_def)
  show "opcode (NewPrim T_INT) \<notin> {T_SET, T_LIST, T_LAMBDA, T_MAP, T_BIG_MAP, T_PAIR, T_OPTION, T_OR,
                    T_TICKET, T_SAPLING_STATE}"
    by (simp add: NewPrim_def prim_op_def)
  show "(if IsSequence (scalar_helpers H0) prim_elt then Pop (Push (args prim_elt) []) else (prim_elt, []))
          = (prim_elt, [])"
    by (simp add: scalar_helpers_def spec_helpers_def prim_elt_def prim_op_def)
  show "\<not> IsScalar (scalar_helpers H0) prim_elt"
    by (simp add: scalar_helpers_def prim_elt_def prim_op_def)
qed

lemma elt_loop_deeper:
  "requires_deeper (scalar_helpers H0) (WalkTree m lab (NewPrim T_INT) (NewStack [prim_elt]) lvl)"
proof (induction "nat (100 - lvl)" arbitrary: lvl m lab rule: less_induct)
  case less
  show ?case
  proof (cases "99 < lvl")
    case True
    then show ?thesis by (rule deeper_base)
  next
    case False
    then have "nat (100 - (lvl + 1)) < nat (100 - lvl)" by simp
    from elt_loop_calls [OF False] less.hyps [OF this] show ?thesis by (rule deeper_step)
  qed
qed

lemma chain_calls:
  assumes "\<not> 99 < lvl"
  shows "\<exists>m' lab'. calls (spec_helpers H0)
           (WalkTree m lab (option_chain (Suc n)) (NewStack [some_chain (Suc n)]) lvl)
           (WalkTree m' lab' (option_chain n) (NewStack [some_chain n]) (lvl + 1))"
proof -
  let ?H = "spec_helpers H0"
  have en: "walk_enters ?H (option_chain (Suc n)) (NewStack [some_chain (Suc n)]) lvl
              (some_chain (Suc n)) (option_chain (Suc n)) []"
    using assms
    by (simp add: walk_enters_def walk_head_def Pop_def NewStack_def prim_op_def
        spec_helpers_def matchOpCode_def)
  have "calls ?H (WalkTree m lab (option_chain (Suc n)) (NewStack [some_chain (Suc n)]) lvl)
       (if IsScalar ?H (some_chain (Suc n))
           \<or> walk_label ?H m lab (option_chain (Suc n)) = GetVarAnnoAny ?H (option_chain n)
        then WalkTree m (walk_label ?H m lab (option_chain (Suc n))) (option_chain n)
               (NewStack [some_chain n]) (lvl + 1)
        else WalkTree [] EMPTY_LABEL (option_chain n) (NewStack [some_chain n]) (lvl + 1))"
    by (rule calls.option_some [OF en]) (simp_all add: prim_op_def)
  then show ?thesis by (auto split: if_splits)
qed

lemma chain_deeper:
  "99 < lvl + int n \<Longrightarrow>
   requires_deeper (spec_helpers H0) (WalkTree m lab (option_chain n) (NewStack [some_chain n]) lvl)"
proof (induction n arbitrary: m lab lvl)
  case 0
  then show ?case by (simp add: deeper_base)
next
  case (Suc n)
  show ?case
  proof (cases "99 < lvl")
    case True
    then show ?thesis by (rule deeper_base)
  next
    case False
    from chain_calls [OF False, of H0 m lab n] obtain m' lab' where
      c: "calls (spec_helpers H0)
           (WalkTree m lab (option_chain (Suc n)) (NewStack [some_chain (Suc n)]) lvl)
           (WalkTree m' lab' (option_chain n) (NewStack [some_chain n]) (lvl + 1))"
      by blast
    have "99 < (lvl + 1) + int n" using Suc.prems by simp
    from c Suc.IH [OF this] show ?thesis by (rule deeper_step)
  qed
qed

text \<open>
  Claim C3: \<open>walkTree\<close> at a level above 99 returns the max-nesting error,
  whatever the type, the stack and the label, and makes no call. And
  every walk that requires nesting deeper than 99, one that through its calls
  gets to an invocation of \<open>walkTree\<close> above level 99, returns that error,
  because every call of the walker hands the error of the call it makes to
  its own caller; this includes the walks that would never end without the
  bound. So \<open>Map\<close>, which starts the walk at level 0, fails with the
  max-nesting error on every value whose walk requires such nesting.
  \<open>walkTree\<close> and \<open>Map\<close> are total: the recursion of \<open>walkTree\<close> ends because
  the level grows with every call and stops at 100.
\<close>

theorem walkTree_depth_bound:
  "(99 < lvl \<longrightarrow> walkTree H m lab ty st lvl = Inl ErrMaxNesting
                 \<and> (\<forall>c'. \<not> calls H (WalkTree m lab ty st lvl) c'))
   \<and> (requires_deeper H (WalkTree m lab ty st lvl)
        \<longrightarrow> walkTree H m lab ty st lvl = Inl ErrMaxNesting)
   \<and> (mapped e = GoNil
        \<and> requires_deeper H (WalkTree [] EMPTY_LABEL (ValueType e) (NewStack [ValuePrim e]) 0)
        \<longrightarrow> Map H e = (Inl ErrMaxNesting, e))"
proof (intro conjI impI allI)
  assume "99 < lvl"
  then show "walkTree H m lab ty st lvl = Inl ErrMaxNesting"
    by (rule walkTree_max_depth)
next
  fix c'
  assume "99 < lvl"
  then show "\<not> calls H (WalkTree m lab ty st lvl) c'"
    by (rule no_calls_above)
next
  assume "requires_deeper H (WalkTree m lab ty st lvl)"
  then have "call_error H (WalkTree m lab ty st lvl) = Some ErrMaxNesting"
    by (rule requires_deeper_error)
  then show "walkTree H m lab ty st lvl = Inl ErrMaxNesting"
    by (simp only: call_error_iff)
next
  assume a: "mapped e = GoNil
        \<and> requires_deeper H (WalkTree [] EMPTY_LABEL (ValueType e) (NewStack [ValuePrim e]) 0)"
  then have "call_error H (WalkTree [] EMPTY_LABEL (ValueType e) (NewStack [ValuePrim e]) 0)
               = Some ErrMaxNesting"
    by (simp add: requires_deeper_error del: call_error.simps)
  then have "walkTree H [] EMPTY_LABEL (ValueType e) (NewStack [ValuePrim e]) 0 = Inl ErrMaxNesting"
    by (simp only: call_error_iff)
  with a show "Map H e = (Inl ErrMaxNesting, e)"
    by (simp add: Map_def)
qed

theorem walkTree_depth_bound_witness:
  "\<forall>H0.
     walkTree (spec_helpers H0) [] EMPTY_LABEL (option_chain 100) (NewStack [some_chain 100]) 100
       = Inl ErrMaxNesting
   \<and> walkTree (spec_helpers H0) [] EMPTY_LABEL (option_chain 100) (NewStack [some_chain 100]) 0
       = Inl ErrMaxNesting
   \<and> Map (spec_helpers H0) (NewValue (option_chain 100) (some_chain 100))
       = (Inl ErrMaxNesting, NewValue (option_chain 100) (some_chain 100))
   \<and> walkTree (scalar_helpers H0) [] EMPTY_LABEL (NewPrim T_INT) (NewStack [prim_elt]) 0
       = Inl ErrMaxNesting
   \<and> Map (scalar_helpers H0) (NewValue (NewPrim T_INT) prim_elt)
       = (Inl ErrMaxNesting, NewValue (NewPrim T_INT) prim_elt)"
proof (intro allI)
  fix H0
  let ?c = "walkTree (spec_helpers H0) [] EMPTY_LABEL (option_chain 100) (NewStack [some_chain 100])"
  let ?ce = "NewValue (option_chain 100) (some_chain 100)"
  let ?l = "walkTree (scalar_helpers H0) [] EMPTY_LABEL (NewPrim T_INT) (NewStack [prim_elt])"
  let ?le = "NewValue (NewPrim T_INT) prim_elt"
  have dc: "requires_deeper (spec_helpers H0)
      (WalkTree [] EMPTY_LABEL (option_chain 100) (NewStack [some_chain 100]) 0)"
    by (rule chain_deeper) simp
  have dl: "requires_deeper (scalar_helpers H0)
      (WalkTree [] EMPTY_LABEL (NewPrim T_INT) (NewStack [prim_elt]) 0)"
    by (rule elt_loop_deeper)
  have e: "mapped ?ce = GoNil" "ValueType ?ce = option_chain 100" "ValuePrim ?ce = some_chain 100"
    "mapped ?le = GoNil" "ValueType ?le = NewPrim T_INT" "ValuePrim ?le = prim_elt"
    by (simp_all add: NewValue_def)
  note tc = walkTree_depth_bound [of 100 "spec_helpers H0" "[]" EMPTY_LABEL "option_chain 100"
      "NewStack [some_chain 100]" ?ce]
  note tc0 = walkTree_depth_bound [of 0 "spec_helpers H0" "[]" EMPTY_LABEL "option_chain 100"
      "NewStack [some_chain 100]" ?ce]
  note tl = walkTree_depth_bound [of 0 "scalar_helpers H0" "[]" EMPTY_LABEL "NewPrim T_INT"
      "NewStack [prim_elt]" ?le]
  have 1: "?c 100 = Inl ErrMaxNesting" using tc by simp
  have 2: "?c 0 = Inl ErrMaxNesting" using tc0 dc by blast
  have 3: "Map (spec_helpers H0) ?ce = (Inl ErrMaxNesting, ?ce)" using tc0 dc e by simp
  have 4: "?l 0 = Inl ErrMaxNesting" using tl dl by blast
  have 5: "Map (scalar_helpers H0) ?le = (Inl ErrMaxNesting, ?le)" using tl dl e by simp
  show "?c 100 = Inl ErrMaxNesting \<and> ?c 0 = Inl ErrMaxNesting
      \<and> Map (spec_helpers H0) ?ce = (Inl ErrMaxNesting, ?ce)
      \<and> ?l 0 = Inl ErrMaxNesting \<and> Map (scalar_helpers H0) ?le = (Inl ErrMaxNesting, ?le)"
    using 1 2 3 4 5 by blast
qed

end
